theory Spec2Isabelle
  imports Complex_Main "HOL-Library.Multiset" "HOL-Library.Sublist" "HOL-Library.Log_Nat"
begin

section \<open>JavaScript values used by the storage layer\<close>

text \<open>
  A JavaScript \<open>number\<close> that is finite is a double, and a double is a real. The sums of
  the statistics and their average are taken in exact arithmetic, which the
  specification allows them (they are stated within floating-point tolerance). Where the
  program rounds a quotient to an integer, and where two sums are compared for equality,
  the rounding of each operation decides: there the operation is the double one, the
  exact result rounded to the nearest double by \<open>fl\<close>. There is no negative zero. The
  operations that can leave the finite numbers return a \<open>jsnum\<close>, which adds the three
  non-finite values.
\<close>

datatype jsnum = Fin real | PInf | NInf | NaN

text \<open>
  \<open>a / b\<close> in exact arithmetic, for the average: a zero divisor gives an infinity or
  \<open>NaN\<close>.
\<close>

definition js_div :: "real \<Rightarrow> real \<Rightarrow> jsnum" where
  "js_div a b =
     (if b = 0 then (if 0 < a then PInf else if a < 0 then NInf else NaN)
      else Fin (a / b))"

text \<open>\<open>Math.round\<close>: the nearest integer, a tie going towards plus infinity.\<close>

fun Math_round :: "jsnum \<Rightarrow> jsnum" where
  "Math_round (Fin a) = Fin (of_int \<lfloor>a + 1 / 2\<rfloor>)"
| "Math_round x = x"


text \<open>\<open>Math.max(...xs)\<close>: minus infinity when there is no argument.\<close>

fun Math_max :: "real list \<Rightarrow> jsnum" where
  "Math_max [] = NInf"
| "Math_max (x # xs) = Fin (foldl max x xs)"

subsection \<open>Doubles\<close>

text \<open>The nearest integer, a tie going to the even one.\<close>

definition round_even :: "real \<Rightarrow> int" where
  "round_even x =
     (let n = \<lfloor>x\<rfloor>; r = x - of_int n
      in if r < 1 / 2 then n else if 1 / 2 < r then n + 1 else if even n then n else n + 1)"

text \<open>The exponent of a positive real \<open>x\<close>: the \<open>k\<close> with \<open>2 ^ k \<le> x < 2 ^ (k + 1)\<close>.\<close>

definition exponent :: "real \<Rightarrow> int" where
  "exponent x =
     (if 1 \<le> x then int (floorlog 2 (nat \<lfloor>x\<rfloor>)) - 1
      else - int (floorlog 2 (nat (\<lceil>1 / x\<rceil> - 1))))"

text \<open>
  The nearest double: 53 significant bits, so the last place of \<open>x\<close> is 52 below its
  exponent, and not below \<open>-1074\<close>, where the subnormal numbers end.
\<close>

definition fl :: "real \<Rightarrow> real" where
  "fl x =
     (if x = 0 then 0
      else (let e = max (exponent \<bar>x\<bar> - 52) (- 1074)
            in of_int (round_even (x / 2 powi e)) * 2 powi e))"

text \<open>The result of an operation whose exact value is \<open>x\<close>: it overflows to an infinity.\<close>

definition double :: "real \<Rightarrow> jsnum" where
  "double x =
     (let y = fl x
      in if 2 ^ 1024 \<le> y then PInf else if y \<le> - (2 ^ 1024) then NInf else Fin y)"

text \<open>\<open>a / b\<close> and \<open>x * c\<close> on doubles.\<close>

definition double_div :: "real \<Rightarrow> real \<Rightarrow> jsnum" where
  "double_div a b =
     (if b = 0 then (if 0 < a then PInf else if a < 0 then NInf else NaN)
      else double (a / b))"

fun double_times :: "jsnum \<Rightarrow> real \<Rightarrow> jsnum" where
  "double_times (Fin a) c = double (a * c)"
| "double_times NaN c = NaN"
| "double_times PInf c = (if 0 < c then PInf else if c < 0 then NInf else NaN)"
| "double_times NInf c = (if 0 < c then NInf else if c < 0 then PInf else NaN)"

subsection \<open>Stored values\<close>

text \<open>
  Modelled from the spec: the type of \<open>Donation.amount\<close>, declared in the schema module,
  which is not among the sources. The spec gives it as "decimal-as-string or numeric":
  either a number, or a decimal string, held here as its digits and its scale
  (\<open>DecimalString 1250 2\<close> is the string "12.50"). \<open>Number\<close> is the coercion the
  source applies to it.
\<close>

datatype amount = Numeric real | DecimalString int nat

fun Number :: "amount \<Rightarrow> real" where
  "Number (Numeric r) = r"
| "Number (DecimalString m k) = of_int m / 10 ^ k"

text \<open>The fields of an event object: numbers, strings and dates (milliseconds).\<close>

datatype jsval = NumV nat | StrV string | DateV nat

type_synonym jsobject = "string \<rightharpoonup> jsval"

subsection \<open>Arrays\<close>

text \<open>
  \<open>Array.prototype.sort(cmp)\<close> is a stable sort: with a comparator that is a consistent
  ordering, as a difference of finite numbers is, the result is the one of this
  insertion sort, where an element goes in front of the first one it does not come after.
\<close>

fun insert_by :: "('a \<Rightarrow> 'a \<Rightarrow> real) \<Rightarrow> 'a \<Rightarrow> 'a list \<Rightarrow> 'a list" where
  "insert_by cmp x [] = [x]"
| "insert_by cmp x (y # ys) =
     (if cmp x y \<le> 0 then x # y # ys else y # insert_by cmp x ys)"

definition array_sort :: "('a \<Rightarrow> 'a \<Rightarrow> real) \<Rightarrow> 'a list \<Rightarrow> 'a list" where
  "array_sort cmp xs = foldr (insert_by cmp) xs []"

text \<open>
  \<open>xs.slice(0, end)\<close> for an integer \<open>end\<close>: a negative \<open>end\<close> counts from the end of
  the array. (A fractional \<open>end\<close> is truncated towards zero first.)
\<close>

definition slice0 :: "'a list \<Rightarrow> int \<Rightarrow> 'a list" where
  "slice0 xs e =
     (if e < 0 then take (nat (max (int (length xs) + e) 0)) xs
      else take (nat (min e (int (length xs)))) xs)"

subsection \<open>Map objects\<close>

text \<open>
  A \<open>Map<number, V>\<close> keeps its entries in insertion order; \<open>set\<close> on a key that is
  present replaces the value where it stands.
\<close>

type_synonym 'v jsmap = "(nat \<times> 'v) list"

definition map_get :: "'v jsmap \<Rightarrow> nat \<Rightarrow> 'v option" where
  "map_get m k = map_of m k"

fun map_set :: "'v jsmap \<Rightarrow> nat \<Rightarrow> 'v \<Rightarrow> 'v jsmap" where
  "map_set [] k v = [(k, v)]"
| "map_set ((k', v') # m) k v =
     (if k' = k then (k, v) # m else (k', v') # map_set m k v)"

definition map_delete :: "'v jsmap \<Rightarrow> nat \<Rightarrow> 'v jsmap" where
  "map_delete m k = filter (\<lambda>e. fst e \<noteq> k) m"

definition map_values :: "'v jsmap \<Rightarrow> 'v list" where
  "map_values m = map snd m"

section \<open>Entities\<close>

text \<open>
  Modelled from the spec: the entity types of the schema module (not among the sources),
  with the fields the spec's data model and the callers of the storage give them. An
  entity is the inserted object extended with its id and its creation time. A student's
  personal goal is numeric and optional: the registration route, the only writer, stores
  \<open>Number(personalGoal)\<close> or \<open>null\<close>. (A goal that is \<open>NaN\<close> is falsy as \<open>null\<close> is,
  and an infinite goal gives the progress 0; neither is among the reals.)
\<close>

record insertUser =
  username :: string
  email :: string
  password :: string
  role :: string

record user = insertUser +
  u_id :: nat
  u_createdAt :: nat

record insertSchool =
  sc_userId :: nat
  name :: string
  adminName :: string
  address :: string
  phone :: string
  fundraisingGoal :: real

record school = insertSchool +
  sc_id :: nat
  sc_createdAt :: nat

record insertStudent =
  st_userId :: nat
  st_schoolId :: nat
  firstName :: string
  lastName :: string
  grade :: string
  personalGoal :: "real option"

record student = insertStudent +
  st_id :: nat
  st_createdAt :: nat

record insertDonation =
  d_studentId :: nat
  d_amount :: amount

record donation = insertDonation +
  d_id :: nat
  d_createdAt :: nat

text \<open>
  The fields of an event are not fixed by the sources: an event is an object, with the
  properties \<open>id\<close> and \<open>createdAt\<close> beside the inserted ones, and a patch
  (\<open>Partial<InsertEvent>\<close>) is an object holding some of the inserted properties.
\<close>

type_synonym event = jsobject

section \<open>MemStorage\<close>

record store =
  users :: "user jsmap"
  schools :: "school jsmap"
  students :: "student jsmap"
  donations :: "donation jsmap"
  events :: "event jsmap"
  userCurrentId :: nat
  schoolCurrentId :: nat
  studentCurrentId :: nat
  donationCurrentId :: nat
  eventCurrentId :: nat

text \<open>
  The counters are natural numbers: a double counts exactly up to \<open>2 ^ 53\<close>, far beyond
  the number of entries a \<open>Map\<close> can hold.
\<close>

definition constructor :: store where
  "constructor =
     \<lparr> users = [], schools = [], students = [], donations = [], events = [],
       userCurrentId = 1, schoolCurrentId = 1, studentCurrentId = 1,
       donationCurrentId = 1, eventCurrentId = 1 \<rparr>"

subsection \<open>Creation\<close>

text \<open>Each \<open>create\<close> takes the value of \<open>new Date()\<close> as \<open>now\<close>.\<close>

definition createUser :: "store \<Rightarrow> nat \<Rightarrow> insertUser \<Rightarrow> user \<times> store" where
  "createUser s now insertUser =
     (let id = userCurrentId s;
          s1 = s\<lparr>userCurrentId := userCurrentId s + 1\<rparr>;
          user = insertUser.extend insertUser (user.fields id now)
      in (user, s1\<lparr>users := map_set (users s1) id user\<rparr>))"

definition createSchool :: "store \<Rightarrow> nat \<Rightarrow> insertSchool \<Rightarrow> school \<times> store" where
  "createSchool s now insertSchool =
     (let id = schoolCurrentId s;
          s1 = s\<lparr>schoolCurrentId := schoolCurrentId s + 1\<rparr>;
          school = insertSchool.extend insertSchool (school.fields id now)
      in (school, s1\<lparr>schools := map_set (schools s1) id school\<rparr>))"

definition createStudent :: "store \<Rightarrow> nat \<Rightarrow> insertStudent \<Rightarrow> student \<times> store" where
  "createStudent s now insertStudent =
     (let id = studentCurrentId s;
          s1 = s\<lparr>studentCurrentId := studentCurrentId s + 1\<rparr>;
          student = insertStudent.extend insertStudent (student.fields id now)
      in (student, s1\<lparr>students := map_set (students s1) id student\<rparr>))"

definition createDonation :: "store \<Rightarrow> nat \<Rightarrow> insertDonation \<Rightarrow> donation \<times> store" where
  "createDonation s now insertDonation =
     (let id = donationCurrentId s;
          s1 = s\<lparr>donationCurrentId := donationCurrentId s + 1\<rparr>;
          donation = insertDonation.extend insertDonation (donation.fields id now)
      in (donation, s1\<lparr>donations := map_set (donations s1) id donation\<rparr>))"

definition createEvent :: "store \<Rightarrow> nat \<Rightarrow> jsobject \<Rightarrow> event \<times> store" where
  "createEvent s now insertEvent =
     (let id = eventCurrentId s;
          s1 = s\<lparr>eventCurrentId := eventCurrentId s + 1\<rparr>;
          event = insertEvent(''id'' \<mapsto> NumV id, ''createdAt'' \<mapsto> DateV now)
      in (event, s1\<lparr>events := map_set (events s1) id event\<rparr>))"

subsection \<open>Lookups\<close>

definition getSchool :: "store \<Rightarrow> nat \<Rightarrow> school option" where
  "getSchool s i = map_get (schools s) i"

definition getStudentsBySchoolId :: "store \<Rightarrow> nat \<Rightarrow> student list" where
  "getStudentsBySchoolId s schoolId =
     filter (\<lambda>student. st_schoolId student = schoolId) (map_values (students s))"

definition getDonationsByStudentId :: "store \<Rightarrow> nat \<Rightarrow> donation list" where
  "getDonationsByStudentId s studentId =
     filter (\<lambda>donation. d_studentId donation = studentId) (map_values (donations s))"

definition getEvent :: "store \<Rightarrow> nat \<Rightarrow> event option" where
  "getEvent s i = map_get (events s) i"

subsection \<open>Events: update and delete\<close>

text \<open>The spread \<open>{...existingEvent, ...updateEvent}\<close> is the override of maps.\<close>

definition updateEvent :: "store \<Rightarrow> nat \<Rightarrow> jsobject \<Rightarrow> event option \<times> store" where
  "updateEvent s i patch =
     (case getEvent s i of
        None \<Rightarrow> (None, s)
      | Some existingEvent \<Rightarrow>
          (let updatedEvent = existingEvent ++ patch
           in (Some updatedEvent, s\<lparr>events := map_set (events s) i updatedEvent\<rparr>)))"

definition deleteEvent :: "store \<Rightarrow> nat \<Rightarrow> bool \<times> store" where
  "deleteEvent s i =
     (case getEvent s i of
        None \<Rightarrow> (False, s)
      | Some e \<Rightarrow> (True, s\<lparr>events := map_delete (events s) i\<rparr>))"

subsection \<open>Statistics\<close>

record schoolStats =
  sc_totalRaised :: real
  sc_totalDonations :: nat
  activeStudents :: nat

record studentStats =
  totalRaised :: real
  totalDonations :: nat
  largestDonation :: jsnum
  averageDonation :: jsnum

record studentWithProgress = student +
  amountRaised :: real
  goalProgress :: jsnum

definition getSchoolStats :: "store \<Rightarrow> nat \<Rightarrow> schoolStats" where
  "getSchoolStats s schoolId =
     (let schoolStudents = getStudentsBySchoolId s schoolId;
          studentIds = map st_id schoolStudents;
          allDonations = filter (\<lambda>donation. d_studentId donation \<in> set studentIds)
                           (map_values (donations s));
          total = foldl (\<lambda>sum donation. sum + Number (d_amount donation)) 0 allDonations
      in \<lparr> sc_totalRaised = total,
           sc_totalDonations = length allDonations,
           activeStudents = length schoolStudents \<rparr>)"

definition getStudentStats :: "store \<Rightarrow> nat \<Rightarrow> studentStats" where
  "getStudentStats s studentId =
     (let studentDonations = getDonationsByStudentId s studentId;
          total = foldl (\<lambda>sum donation. sum + Number (d_amount donation)) 0 studentDonations;
          largest = (if length studentDonations > 0
                     then Math_max (map (\<lambda>d. Number (d_amount d)) studentDonations)
                     else Fin 0);
          average = (if length studentDonations > 0
                     then js_div total (real (length studentDonations))
                     else Fin 0)
      in \<lparr> totalRaised = total,
           totalDonations = length studentDonations,
           largestDonation = largest,
           averageDonation = average \<rparr>)"

text \<open>
  The object that the callback of \<open>getTopPerformingStudents\<close> returns for a student and
  the student's statistics. The test \<open>student.personalGoal ? ... : 0\<close> is on a number or
  \<open>null\<close>: \<open>null\<close> and \<open>0\<close> are the falsy values. \<open>Number\<close> of a number is the number.
  The quotient and the product are doubles.
\<close>

definition withStats :: "student \<Rightarrow> studentStats \<Rightarrow> studentWithProgress" where
  "withStats student stats =
     student.extend student
       (studentWithProgress.fields
          (totalRaised stats)
          (case personalGoal student of
             None \<Rightarrow> Fin 0
           | Some goal \<Rightarrow>
               if goal \<noteq> 0
               then Math_round (double_times (double_div (totalRaised stats) goal) 100)
               else Fin 0))"

definition withProgress :: "store \<Rightarrow> student \<Rightarrow> studentWithProgress" where
  "withProgress s student = withStats student (getStudentStats s (st_id student))"

definition getTopPerformingStudents ::
  "store \<Rightarrow> nat \<Rightarrow> int option \<Rightarrow> studentWithProgress list" where
  "getTopPerformingStudents s schoolId limit =
     (let schoolStudents = getStudentsBySchoolId s schoolId;
          studentsWithProgress = map (withProgress s) schoolStudents;
          sortedStudents =
            array_sort (\<lambda>a b. amountRaised b - amountRaised a) studentsWithProgress
      in slice0 sortedStudents (case limit of None \<Rightarrow> 10 | Some l \<Rightarrow> l))"


subsection \<open>The statistics as methods\<close>

text \<open>
  The same three methods with the store passed along, as the program runs them: a method
  takes the store and gives back its result and the store it leaves. Each awaited call
  hands its store to the next statement. \<open>Array.from(map.values())\<close> reads a collection
  and leaves it as it is.
\<close>

definition students_values :: "store \<Rightarrow> student list \<times> store" where
  "students_values s = (map_values (students s), s)"

definition donations_values :: "store \<Rightarrow> donation list \<times> store" where
  "donations_values s = (map_values (donations s), s)"

definition getStudentsBySchoolId_method :: "nat \<Rightarrow> store \<Rightarrow> student list \<times> store" where
  "getStudentsBySchoolId_method schoolId s =
     (let (all, s1) = students_values s
      in (filter (\<lambda>student. st_schoolId student = schoolId) all, s1))"

definition getDonationsByStudentId_method :: "nat \<Rightarrow> store \<Rightarrow> donation list \<times> store" where
  "getDonationsByStudentId_method studentId s =
     (let (all, s1) = donations_values s
      in (filter (\<lambda>donation. d_studentId donation = studentId) all, s1))"

definition getSchoolStats_method :: "nat \<Rightarrow> store \<Rightarrow> schoolStats \<times> store" where
  "getSchoolStats_method schoolId s =
     (let (schoolStudents, s1) = getStudentsBySchoolId_method schoolId s;
          studentIds = map st_id schoolStudents;
          (all, s2) = donations_values s1;
          allDonations = filter (\<lambda>donation. d_studentId donation \<in> set studentIds) all;
          total = foldl (\<lambda>sum donation. sum + Number (d_amount donation)) 0 allDonations
      in (\<lparr> sc_totalRaised = total,
            sc_totalDonations = length allDonations,
            activeStudents = length schoolStudents \<rparr>, s2))"

definition getStudentStats_method :: "nat \<Rightarrow> store \<Rightarrow> studentStats \<times> store" where
  "getStudentStats_method studentId s =
     (let (studentDonations, s1) = getDonationsByStudentId_method studentId s;
          total = foldl (\<lambda>sum donation. sum + Number (d_amount donation)) 0 studentDonations;
          largest = (if length studentDonations > 0
                     then Math_max (map (\<lambda>d. Number (d_amount d)) studentDonations)
                     else Fin 0);
          average = (if length studentDonations > 0
                     then js_div total (real (length studentDonations))
                     else Fin 0)
      in (\<lparr> totalRaised = total,
            totalDonations = length studentDonations,
            largestDonation = largest,
            averageDonation = average \<rparr>, s1))"

text \<open>
  \<open>Promise.all(xs.map(f))\<close> for an asynchronous \<open>f\<close> that reads the store before its
  first suspension: the reads happen in the order of the array.
\<close>

fun map_method :: "('a \<Rightarrow> store \<Rightarrow> 'b \<times> store) \<Rightarrow> 'a list \<Rightarrow> store \<Rightarrow> 'b list \<times> store" where
  "map_method f [] s = ([], s)"
| "map_method f (x # xs) s =
     (let (y, s1) = f x s; (ys, s2) = map_method f xs s1 in (y # ys, s2))"

definition getTopPerformingStudents_method ::
  "nat \<Rightarrow> int option \<Rightarrow> store \<Rightarrow> studentWithProgress list \<times> store" where
  "getTopPerformingStudents_method schoolId limit s =
     (let (schoolStudents, s1) = getStudentsBySchoolId_method schoolId s;
          (studentsWithProgress, s2) =
            map_method
              (\<lambda>student s. let (stats, s') = getStudentStats_method (st_id student) s
                            in (withStats student stats, s'))
              schoolStudents s1;
          sortedStudents =
            array_sort (\<lambda>a b. amountRaised b - amountRaised a) studentsWithProgress
      in (slice0 sortedStudents (case limit of None \<Rightarrow> 10 | Some l \<Rightarrow> l), s2))"

subsection \<open>The sums in double arithmetic\<close>

text \<open>
  \<open>getDonationsBySchoolId\<close> selects the donations that \<open>getSchoolStats\<close> sums. The reduce
  \<open>(sum, donation) => sum + Number(donation.amount)\<close> from 0, as both statistics run it:
  the amount is a double, and so is each sum.
\<close>

definition getDonationsBySchoolId :: "store \<Rightarrow> nat \<Rightarrow> donation list" where
  "getDonationsBySchoolId s schoolId =
     (let schoolStudents = getStudentsBySchoolId s schoolId;
          studentIds = map st_id schoolStudents
      in filter (\<lambda>donation. d_studentId donation \<in> set studentIds)
           (map_values (donations s)))"

definition totalRaised_double :: "donation list \<Rightarrow> real" where
  "totalRaised_double ds =
     foldl (\<lambda>sum donation. fl (sum + fl (Number (d_amount donation)))) 0 ds"

section \<open>The student dashboard (registerRoutes)\<close>


subsection \<open>Class rankings\<close>

text \<open>
  \<open>gradeGroups\<close> is a plain object created by \<open>{}\<close>: its own properties, in the order
  of their creation, and behind them the properties it inherits from
  \<open>Object.prototype\<close>, all of them functions or objects, so truthy.
\<close>

record gradeGroup =
  g_totalRaised :: real
  g_count :: nat

type_synonym gradeGroups = "(string \<times> gradeGroup) list"

definition Object_prototype_names :: "string list" where
  "Object_prototype_names =
     [''constructor'', ''__proto__'', ''hasOwnProperty'', ''isPrototypeOf'',
      ''propertyIsEnumerable'', ''toLocaleString'', ''toString'', ''valueOf'',
      ''__defineGetter__'', ''__defineSetter__'', ''__lookupGetter__'',
      ''__lookupSetter__'']"

text \<open>
  One turn of the loop over the students of the school. The test
  \<open>!gradeGroups[grade]\<close> is false when the grade is an own property, and also when it
  names an inherited one: then nothing is initialised, the two \<open>+=\<close> write to the
  inherited function or object, and \<open>gradeGroups\<close> gets no property.
\<close>

definition addStudent :: "store \<Rightarrow> gradeGroups \<Rightarrow> student \<Rightarrow> gradeGroups" where
  "addStudent s groups schoolStudent =
     (let g = grade schoolStudent
      in if g \<in> set Object_prototype_names then groups
         else
           (let groups1 = (if map_of groups g = None
                           then groups @ [(g, \<lparr> g_totalRaised = 0, g_count = 0 \<rparr>)]
                           else groups);
                studentStats = getStudentStats s (st_id schoolStudent)
            in map (\<lambda>(k, v).
                      if k = g
                      then (k, v\<lparr> g_totalRaised := g_totalRaised v + totalRaised studentStats,
                                 g_count := g_count v + 1 \<rparr>)
                      else (k, v)) groups1))"

text \<open>
  \<open>Object.keys\<close> lists the own properties: first those whose name is an array index (a
  canonical decimal numeral below \<open>2 ^ 32 - 1\<close>, as the grades "9" and "10" are), in
  ascending numeric order, then the others in the order of their creation.
\<close>

definition digit_value :: "char \<Rightarrow> nat" where
  "digit_value c = of_char c - 48"

definition index_value :: "string \<Rightarrow> nat" where
  "index_value k = foldl (\<lambda>n c. 10 * n + digit_value c) 0 k"

definition is_array_index :: "string \<Rightarrow> bool" where
  "is_array_index k =
     (k \<noteq> [] \<and> list_all (\<lambda>c. c \<in> set ''0123456789'') k
      \<and> (k = ''0'' \<or> hd k \<in> set ''123456789'') \<and> index_value k < 2 ^ 32 - 1)"

definition own_entries :: "(string \<times> 'a) list \<Rightarrow> (string \<times> 'a) list" where
  "own_entries obj =
     sort_key (\<lambda>e. index_value (fst e)) (filter (\<lambda>e. is_array_index (fst e)) obj)
     @ filter (\<lambda>e. \<not> is_array_index (fst e)) obj"

record classRanking =
  cr_grade :: string
  cr_totalRaised :: real
  percentage :: jsnum

definition classRankings :: "store \<Rightarrow> nat \<Rightarrow> classRanking list" where
  "classRankings s schoolId =
     (let schoolStats = getSchoolStats s schoolId;
          schoolStudents = getStudentsBySchoolId s schoolId;
          gradeGroups = foldl (addStudent s) [] schoolStudents
      in array_sort (\<lambda>a b. cr_totalRaised b - cr_totalRaised a)
           (map (\<lambda>(g, v).
                   \<lparr> cr_grade = g,
                     cr_totalRaised = g_totalRaised v,
                     percentage =
                       (if sc_totalRaised schoolStats > 0
                        then Math_round
                               (double_times (double_div (g_totalRaised v) (sc_totalRaised schoolStats)) 100)
                        else Fin 0) \<rparr>)
              (own_entries gradeGroups)))"

section \<open>Calls on the storage\<close>

text \<open>
  A call of a method of the storage takes the store and gives back the reply and the
  store it leaves.
\<close>

datatype request =
    CreateUser nat insertUser
  | CreateSchool nat insertSchool
  | CreateStudent nat insertStudent
  | CreateDonation nat insertDonation
  | CreateEvent nat jsobject
  | UpdateEvent nat jsobject
  | DeleteEvent nat
  | GetSchoolStats nat
  | GetStudentStats nat
  | GetTopPerformingStudents nat "int option"

datatype response =
    CreatedUser user
  | CreatedSchool school
  | CreatedStudent student
  | CreatedDonation donation
  | CreatedEvent event
  | UpdatedEvent "event option"
  | DeletedEvent bool
  | SchoolStats schoolStats
  | StudentStats studentStats
  | TopPerformingStudents "studentWithProgress list"

fun call :: "request \<Rightarrow> store \<Rightarrow> response \<times> store" where
  "call (CreateUser now u) s = (let (r, s') = createUser s now u in (CreatedUser r, s'))"
| "call (CreateSchool now x) s = (let (r, s') = createSchool s now x in (CreatedSchool r, s'))"
| "call (CreateStudent now x) s = (let (r, s') = createStudent s now x in (CreatedStudent r, s'))"
| "call (CreateDonation now x) s =
     (let (r, s') = createDonation s now x in (CreatedDonation r, s'))"
| "call (CreateEvent now x) s = (let (r, s') = createEvent s now x in (CreatedEvent r, s'))"
| "call (UpdateEvent i patch) s = (let (r, s') = updateEvent s i patch in (UpdatedEvent r, s'))"
| "call (DeleteEvent i) s = (let (r, s') = deleteEvent s i in (DeletedEvent r, s'))"
| "call (GetSchoolStats i) s = (let (r, s') = getSchoolStats_method i s in (SchoolStats r, s'))"
| "call (GetStudentStats i) s = (let (r, s') = getStudentStats_method i s in (StudentStats r, s'))"
| "call (GetTopPerformingStudents i limit) s =
     (let (r, s') = getTopPerformingStudents_method i limit s in (TopPerformingStudents r, s'))"

fun run :: "request list \<Rightarrow> store \<Rightarrow> response list \<times> store" where
  "run [] s = ([], s)"
| "run (r # rs) s =
     (let (x, s1) = call r s; (xs, s2) = run rs s1 in (x # xs, s2))"

text \<open>
  The id that a reply assigns, with the collection it belongs to. The id of an event is
  its property \<open>id\<close>; an event without a numeric \<open>id\<close> counts as 0, which is no id.
\<close>

datatype collection = Users | Schools | Students | Donations | Events

definition event_id :: "event \<Rightarrow> nat" where
  "event_id e = (case e ''id'' of Some (NumV i) \<Rightarrow> i | _ \<Rightarrow> 0)"

fun assigned :: "response \<Rightarrow> (collection \<times> nat) list" where
  "assigned (CreatedUser u) = [(Users, u_id u)]"
| "assigned (CreatedSchool x) = [(Schools, sc_id x)]"
| "assigned (CreatedStudent x) = [(Students, st_id x)]"
| "assigned (CreatedDonation x) = [(Donations, d_id x)]"
| "assigned (CreatedEvent e) = [(Events, event_id e)]"
| "assigned _ = []"

definition assigned_ids :: "collection \<Rightarrow> response list \<Rightarrow> nat list" where
  "assigned_ids c xs = map snd (filter (\<lambda>p. fst p = c) (concat (map assigned xs)))"

text \<open>The requests that create an entity of a collection, and those that delete one.\<close>

fun creates :: "collection \<Rightarrow> request \<Rightarrow> bool" where
  "creates Users (CreateUser now x) = True"
| "creates Schools (CreateSchool now x) = True"
| "creates Students (CreateStudent now x) = True"
| "creates Donations (CreateDonation now x) = True"
| "creates Events (CreateEvent now x) = True"
| "creates c r = False"

fun deletes :: "request \<Rightarrow> bool" where
  "deletes (DeleteEvent i) = True"
| "deletes r = False"

fun counter :: "collection \<Rightarrow> store \<Rightarrow> nat" where
  "counter Users s = userCurrentId s"
| "counter Schools s = schoolCurrentId s"
| "counter Students s = studentCurrentId s"
| "counter Donations s = donationCurrentId s"
| "counter Events s = eventCurrentId s"

section \<open>The registration of a student (setupAuth)\<close>

text \<open>
  The route \<open>POST /api/register/student\<close>, as far as the store goes: the body with the
  password hashed and the personal goal coerced (\<open>personalGoal ? Number(personalGoal) :
  null\<close>), the two times of creation, and the status of the reply.
\<close>

definition getUserByUsername :: "store \<Rightarrow> string \<Rightarrow> user option" where
  "getUserByUsername s n = find (\<lambda>user. username user = n) (map_values (users s))"

definition getUserByEmail :: "store \<Rightarrow> string \<Rightarrow> user option" where
  "getUserByEmail s e = find (\<lambda>user. email user = e) (map_values (users s))"

record studentRegistration =
  r_username :: string
  r_email :: string
  r_passwordHash :: string
  r_firstName :: string
  r_lastName :: string
  r_grade :: string
  r_schoolId :: nat
  r_personalGoal :: "real option"

definition registerStudent ::
  "store \<Rightarrow> nat \<Rightarrow> nat \<Rightarrow> studentRegistration \<Rightarrow> nat \<times> store" where
  "registerStudent s now1 now2 body =
     (if getSchool s (r_schoolId body) = None then (400, s)
      else if getUserByUsername s (r_username body) \<noteq> None then (400, s)
      else if getUserByEmail s (r_email body) \<noteq> None then (400, s)
      else
        (let (user, s1) = createUser s now1
               \<lparr> username = r_username body, email = r_email body,
                 password = r_passwordHash body, role = ''student'' \<rparr>;
             (student, s2) = createStudent s1 now2
               \<lparr> st_userId = u_id user, st_schoolId = r_schoolId body,
                 firstName = r_firstName body, lastName = r_lastName body,
                 grade = r_grade body, personalGoal = r_personalGoal body \<rparr>
         in (201, s2)))"

section \<open>Invariants of the data model\<close>

text \<open>
  Every student references an existing school. The storage does not check it; the
  registration route looks the school up before it creates the student, and schools are
  never deleted.
\<close>

definition students_reference_schools :: "store \<Rightarrow> bool" where
  "students_reference_schools s =
     list_all (\<lambda>student. getSchool s (st_schoolId student) \<noteq> None) (map_values (students s))"

text \<open>
  The students are held under their ids, which are pairwise different and below the
  counter: \<open>createStudent\<close> is the only writer of the collection.
\<close>

definition students_inv :: "store \<Rightarrow> bool" where
  "students_inv s =
     (distinct (map fst (students s))
      \<and> list_all (\<lambda>e. st_id (snd e) = fst e \<and> fst e < studentCurrentId s) (students s))"

text \<open>The keys of a collection, in the order of the \<open>Map\<close>.\<close>

fun keys :: "collection \<Rightarrow> store \<Rightarrow> nat list" where
  "keys Users s = map fst (users s)"
| "keys Schools s = map fst (schools s)"
| "keys Students s = map fst (students s)"
| "keys Donations s = map fst (donations s)"
| "keys Events s = map fst (events s)"

text \<open>Every key of the collection is below its counter.\<close>

definition fresh :: "collection \<Rightarrow> store \<Rightarrow> bool" where
  "fresh c s = list_all (\<lambda>k. k < counter c s) (keys c s)"

section \<open>Example stores\<close>

text \<open>
  The example of the specification: school 1 with the students A (goal 100, donations
  30 and 40) and B (goal 200, donation 50); beside them a student C without goal and
  without donation, a school 2 without students, a school 3 with the student D (goal 20,
  donation 30), and one event of school 1.
\<close>

definition example_store :: store where
  "example_store =
     \<lparr> users = [],
       schools =
         [(1, \<lparr> sc_userId = 1, name = ''S'', adminName = ''T'', address = '''', phone = '''',
                fundraisingGoal = 1000, sc_id = 1, sc_createdAt = 0 \<rparr>),
          (2, \<lparr> sc_userId = 5, name = ''U'', adminName = ''V'', address = '''', phone = '''',
                fundraisingGoal = 0, sc_id = 2, sc_createdAt = 6 \<rparr>),
          (3, \<lparr> sc_userId = 6, name = ''W'', adminName = ''X'', address = [], phone = [],
                fundraisingGoal = 500, sc_id = 3, sc_createdAt = 8 \<rparr>)],
       students =
         [(1, \<lparr> st_userId = 2, st_schoolId = 1, firstName = ''A'', lastName = '''',
                grade = ''5'', personalGoal = Some 100, st_id = 1, st_createdAt = 1 \<rparr>),
          (2, \<lparr> st_userId = 3, st_schoolId = 1, firstName = ''B'', lastName = '''',
                grade = ''6'', personalGoal = Some 200, st_id = 2, st_createdAt = 2 \<rparr>),
          (3, \<lparr> st_userId = 4, st_schoolId = 1, firstName = ''C'', lastName = '''',
                grade = ''5'', personalGoal = None, st_id = 3, st_createdAt = 3 \<rparr>),
          (4, \<lparr> st_userId = 7, st_schoolId = 3, firstName = ''D'', lastName = [],
                grade = ''7'', personalGoal = Some 20, st_id = 4, st_createdAt = 9 \<rparr>)],
       donations =
         [(1, \<lparr> d_studentId = 1, d_amount = Numeric 30, d_id = 1, d_createdAt = 4 \<rparr>),
          (2, \<lparr> d_studentId = 2, d_amount = DecimalString 5000 2, d_id = 2, d_createdAt = 5 \<rparr>),
          (3, \<lparr> d_studentId = 1, d_amount = Numeric 40, d_id = 3, d_createdAt = 6 \<rparr>),
          (4, \<lparr> d_studentId = 4, d_amount = Numeric 30, d_id = 4, d_createdAt = 10 \<rparr>)],
       events =
         [(1, [''id'' \<mapsto> NumV 1, ''createdAt'' \<mapsto> DateV 7, ''schoolId'' \<mapsto> NumV 1,
               ''title'' \<mapsto> StrV ''Fair'', ''date'' \<mapsto> DateV 100])],
       userCurrentId = 8, schoolCurrentId = 4, studentCurrentId = 5,
       donationCurrentId = 5, eventCurrentId = 2 \<rparr>"

text \<open>A patch that replaces the title of an event.\<close>

definition example_patch :: jsobject where
  "example_patch = [''title'' \<mapsto> StrV ''Gala'']"


text \<open>
  A school whose only student registered with the grade "constructor", and has one
  donation of 50.
\<close>

definition inherited_grade_store :: store where
  "inherited_grade_store =
     \<lparr> users = [],
       schools =
         [(1, \<lparr> sc_userId = 1, name = ''S'', adminName = ''T'', address = [], phone = [],
                fundraisingGoal = 1000, sc_id = 1, sc_createdAt = 0 \<rparr>)],
       students =
         [(1, \<lparr> st_userId = 2, st_schoolId = 1, firstName = ''E'', lastName = [],
                grade = ''constructor'', personalGoal = Some 100, st_id = 1,
                st_createdAt = 1 \<rparr>)],
       donations =
         [(1, \<lparr> d_studentId = 1, d_amount = Numeric 50, d_id = 1, d_createdAt = 2 \<rparr>)],
       events = [],
       userCurrentId = 3, schoolCurrentId = 2, studentCurrentId = 2,
       donationCurrentId = 2, eventCurrentId = 1 \<rparr>"



text \<open>A patch that holds an \<open>id\<close>, as a request body may.\<close>

definition id_patch :: jsobject where
  "id_patch = [''id'' \<mapsto> NumV 99]"

definition example_insertSchool :: insertSchool where
  "example_insertSchool =
     \<lparr> sc_userId = 1, name = ''S'', adminName = ''T'', address = [], phone = [],
       fundraisingGoal = 1000 \<rparr>"


text \<open>
  A school with the students A and B, and the donations "0.10" to A, "0.10" to B and
  "1.10" to B, in this order.
\<close>

definition rounding_store :: store where
  "rounding_store =
     \<lparr> users = [],
       schools =
         [(1, \<lparr> sc_userId = 1, name = ''S'', adminName = ''T'', address = [], phone = [],
                fundraisingGoal = 1000, sc_id = 1, sc_createdAt = 0 \<rparr>)],
       students =
         [(1, \<lparr> st_userId = 2, st_schoolId = 1, firstName = ''A'', lastName = [],
                grade = ''5'', personalGoal = None, st_id = 1, st_createdAt = 1 \<rparr>),
          (2, \<lparr> st_userId = 3, st_schoolId = 1, firstName = ''B'', lastName = [],
                grade = ''5'', personalGoal = None, st_id = 2, st_createdAt = 2 \<rparr>)],
       donations =
         [(1, \<lparr> d_studentId = 1, d_amount = DecimalString 10 2, d_id = 1, d_createdAt = 3 \<rparr>),
          (2, \<lparr> d_studentId = 2, d_amount = DecimalString 10 2, d_id = 2, d_createdAt = 4 \<rparr>),
          (3, \<lparr> d_studentId = 2, d_amount = DecimalString 110 2, d_id = 3, d_createdAt = 5 \<rparr>)],
       events = [],
       userCurrentId = 4, schoolCurrentId = 2, studentCurrentId = 3,
       donationCurrentId = 4, eventCurrentId = 1 \<rparr>"

text \<open>
  The specification compares the total of a school with the sum of the totals of its
  students: that sum, added up in doubles over the students in their order, each total
  being the reduce of \<open>getStudentStats\<close> in doubles.
\<close>

definition students_total_double :: "store \<Rightarrow> nat \<Rightarrow> real" where
  "students_total_double s schoolId =
     foldl (\<lambda>sum student.
              fl (sum + totalRaised_double (getDonationsByStudentId s (st_id student))))
       0 (getStudentsBySchoolId s schoolId)"

section \<open>Reductions and maxima\<close>

lemma foldl_add_sum_list:
  "foldl (\<lambda>sum x. sum + f x) a xs = a + sum_list (map f xs)"
  for a :: real
  by (induction xs arbitrary: a) simp_all

lemma foldl_max_Max: "foldl max x xs = Max (set (x # xs))"
  for x :: real
proof (induction xs arbitrary: x)
  case Nil
  show ?case by simp
next
  case (Cons y ys)
  have "foldl max x (y # ys) = Max (set (max x y # ys))"
    using Cons.IH [of "max x y"] by simp
  also have "\<dots> = Max (set (x # y # ys))"
    by (cases "ys = []") (simp_all add: max.assoc)
  finally show ?case .
qed

lemma Math_max_nonempty: "xs \<noteq> [] \<Longrightarrow> Math_max xs = Fin (Max (set xs))"
  by (cases xs) (simp_all add: foldl_max_Max del: foldl_Cons)

section \<open>Double arithmetic\<close>

text \<open>
  A rounding to the nearest integer is off by a half at most; the exponent brackets its
  argument between two powers of 2; and so a rounding to the nearest double, in the
  normal range, is off by 2 to the -53 of the argument at most.
\<close>

lemma round_even_error: "\<bar>real_of_int (round_even y) - y\<bar> \<le> 1 / 2"
proof -
  have "real_of_int \<lfloor>y\<rfloor> \<le> y" "y < real_of_int \<lfloor>y\<rfloor> + 1"
    by linarith+
  then show ?thesis
    by (auto simp: round_even_def Let_def)
qed

lemma exponent_ge_one:
  assumes "1 \<le> x"
  shows "2 powi (exponent x) \<le> x" and "x < 2 powi (exponent x + 1)"
proof -
  let ?n = "nat \<lfloor>x\<rfloor>"
  let ?f = "floorlog 2 ?n"
  have n: "0 < ?n" using assms by simp
  have b: "2 ^ (?f - 1) \<le> ?n" "?n < 2 ^ ?f"
    using floorlog_bounds [of ?n 2] n by simp_all
  have f: "0 < ?f"
    using n by (simp add: floorlog_eq_zero_iff Suc_le_eq flip: not_le)
  have e: "exponent x = int ?f - 1"
    using assms by (simp add: exponent_def)
  have "real (2 ^ (?f - 1)) \<le> real ?n"
    using b(1) by (simp only: of_nat_le_iff)
  also have "real ?n \<le> x"
    using assms by simp
  finally have lo: "2 ^ (?f - 1) \<le> x" by simp
  have "int ?n + 1 \<le> 2 ^ ?f"
    using b(2) by (metis Suc_leI of_nat_Suc of_nat_le_iff of_nat_numeral of_nat_power add.commute)
  then have "real_of_int (int ?n + 1) \<le> real_of_int (2 ^ ?f)"
    by (simp only: of_int_le_iff)
  moreover have "x < real_of_int (int ?n + 1)"
    using assms by linarith
  ultimately have hi: "x < 2 ^ ?f" by simp
  have p1: "(2::real) powi (int ?f - 1) = 2 ^ (?f - 1)"
    using f by (metis of_nat_1 of_nat_diff Suc_leI power_int_of_nat One_nat_def)
  have p2: "(2::real) powi (int ?f - 1 + 1) = 2 ^ ?f"
    by simp
  show "2 powi (exponent x) \<le> x" using lo by (simp only: e p1)
  show "x < 2 powi (exponent x + 1)" using hi by (simp only: e p2)
qed

lemma exponent_lt_one:
  assumes "0 < x" and "x < 1"
  shows "2 powi (exponent x) \<le> x" and "x < 2 powi (exponent x + 1)"
proof -
  let ?y = "1 / x"
  let ?m = "nat (\<lceil>?y\<rceil> - 1)"
  let ?f = "floorlog 2 ?m"
  have y: "1 < ?y" using assms by simp
  then have c: "2 \<le> \<lceil>?y\<rceil>" by linarith
  then have m: "0 < ?m" by simp
  have b: "2 ^ (?f - 1) \<le> ?m" "?m < 2 ^ ?f"
    using floorlog_bounds [of ?m 2] m by simp_all
  have f: "0 < ?f"
    using m by (simp add: floorlog_eq_zero_iff Suc_le_eq flip: not_le)
  have e: "exponent x = - int ?f"
    using assms by (simp add: exponent_def)
  have "0 \<le> \<lceil>?y\<rceil> - 1" using c by linarith
  then have mi: "int ?m = \<lceil>?y\<rceil> - 1" by (simp only: int_nat_eq if_True)
  have "\<lceil>?y\<rceil> \<le> 2 ^ ?f"
    using b(2) mi by (metis Suc_leI of_nat_Suc of_nat_le_iff of_nat_numeral of_nat_power
        add.commute diff_add_cancel)
  then have "real_of_int \<lceil>?y\<rceil> \<le> real_of_int (2 ^ ?f)"
    by (simp only: of_int_le_iff)
  moreover have "?y \<le> real_of_int \<lceil>?y\<rceil>" by (rule le_of_int_ceiling)
  moreover have "real_of_int (2 ^ ?f) = 2 ^ ?f" by simp
  ultimately have hi: "?y \<le> 2 ^ ?f" by (metis order_trans)
  have "real (2 ^ (?f - 1)) \<le> real ?m"
    using b(1) by (simp only: of_nat_le_iff)
  also have "real ?m = real_of_int (\<lceil>?y\<rceil> - 1)"
    using mi by (metis of_int_of_nat_eq)
  also have "\<dots> < ?y" by linarith
  finally have lo: "2 ^ (?f - 1) < ?y" by simp
  have "1 / 2 ^ ?f \<le> x"
    using hi assms(1) by (simp add: field_simps)
  moreover have "(2::real) powi (- int ?f) = 1 / 2 ^ ?f"
    by (simp add: power_int_minus field_simps)
  ultimately show "2 powi (exponent x) \<le> x"
    by (simp only: e)
  have "x < 1 / 2 ^ (?f - 1)"
    using lo assms(1) by (simp add: field_simps)
  moreover have "(2::real) powi (- int ?f + 1) = 1 / 2 ^ (?f - 1)"
  proof -
    have "- int ?f + 1 = - int (?f - 1)" using f by simp
    then show ?thesis
      by (simp only: power_int_minus power_int_of_nat) (simp add: field_simps)
  qed
  ultimately show "x < 2 powi (exponent x + 1)"
    by (simp only: e)
qed

lemma exponent_bounds:
  assumes "0 < x"
  shows "2 powi (exponent x) \<le> x" and "x < 2 powi (exponent x + 1)"
  using exponent_ge_one [of x] exponent_lt_one [of x] assms by (cases "1 \<le> x"; simp)+

lemma fl_error:
  assumes "2 powi (- 1022) \<le> \<bar>x\<bar>"
  shows "\<bar>fl x - x\<bar> \<le> \<bar>x\<bar> / 2 ^ 53"
proof -
  have pos: "0 < \<bar>x\<bar>"
    by (rule less_le_trans [OF _ assms]) simp
  then have x0: "x \<noteq> 0" by simp
  let ?k = "exponent \<bar>x\<bar>"
  have k: "2 powi ?k \<le> \<bar>x\<bar>" "\<bar>x\<bar> < 2 powi (?k + 1)"
    using exponent_bounds [OF pos] by simp_all
  have lt: "(2::real) powi (- 1022) < 2 powi (?k + 1)"
    using assms k(2) by (rule le_less_trans)
  have "- 1022 < ?k + 1"
  proof (rule ccontr)
    assume "\<not> - 1022 < ?k + 1"
    then have "?k + 1 \<le> - 1022" by simp
    then have "(2::real) powi (?k + 1) \<le> 2 powi (- 1022)"
      by (rule power_int_increasing) simp
    with lt show False using leD by blast
  qed
  then have e: "max (?k - 52) (- 1074) = ?k - 52" by simp
  let ?e = "?k - 52"
  let ?y = "x / 2 powi ?e"
  have fl: "fl x = of_int (round_even ?y) * 2 powi ?e"
    using x0 by (simp only: fl_def Let_def e if_False)
  have p: "(0::real) < 2 powi ?e" by simp
  have "fl x - x = (of_int (round_even ?y) - ?y) * 2 powi ?e"
    using p by (simp add: fl algebra_simps)
  then have "\<bar>fl x - x\<bar> = \<bar>of_int (round_even ?y) - ?y\<bar> * 2 powi ?e"
    using p by (simp add: abs_mult)
  also have "\<dots> \<le> 1 / 2 * 2 powi ?e"
    using round_even_error [of ?y] p by (intro mult_right_mono) simp_all
  also have "1 / 2 * (2::real) powi ?e = 2 powi ?k / 2 ^ 53"
  proof -
    have "(2::real) powi ?k = 2 powi (?e + 52)" by simp
    also have "\<dots> = 2 powi ?e * 2 powi 52"
      by (rule power_int_add) simp
    finally show ?thesis by simp
  qed
  also have "\<dots> \<le> \<bar>x\<bar> / 2 ^ 53"
    using k(1) by (simp add: divide_right_mono)
  finally show ?thesis .
qed










lemma progress_zero: "g \<noteq> 0 \<Longrightarrow> Math_round (double_times (double_div 0 g) 100) = Fin 0"
  by (simp add: double_div_def double_def fl_def)

text \<open>The operations on the numbers of the examples.\<close>

lemmas double_eval =
  double_div_def double_def fl_def exponent_def round_even_def compute_floorlog
  power_int_minus Let_def

lemma quotient_70_100: "Math_round (double_times (double_div 70 100) 100) = Fin 70"
  by (simp add: double_eval)

lemma quotient_50_200: "Math_round (double_times (double_div 50 200) 100) = Fin 25"
  by (simp add: double_eval)

lemma quotient_30_20: "Math_round (double_times (double_div 30 20) 100) = Fin 150"
  by (simp add: double_eval)


lemma quotient_70_120: "Math_round (double_times (double_div 70 120) 100) = Fin 58"
  by (simp add: double_eval)

lemma quotient_50_120: "Math_round (double_times (double_div 50 120) 100) = Fin 42"
  by (simp add: double_eval)

section \<open>Student statistics\<close>

text \<open>
  C1. For every student id, with \<open>ds\<close> the donations of the store that carry this
  student id: \<open>totalRaised\<close> is the sum of their amounts, each coerced by \<open>Number\<close>;
  \<open>totalDonations\<close> is their count; \<open>largestDonation\<close> is the maximum amount, and 0
  when there is none; \<open>averageDonation\<close> is the sum divided by the count, and 0 when
  there is none. With no donation all four are zero.
\<close>

theorem getStudentStats_correct:
  "let ds = getDonationsByStudentId s i;
       amounts = map (\<lambda>d. Number (d_amount d)) ds;
       r = getStudentStats s i
   in set ds = {d \<in> set (map_values (donations s)). d_studentId d = i}
      \<and> totalRaised r = sum_list amounts
      \<and> totalDonations r = length ds
      \<and> largestDonation r = (if ds = [] then Fin 0 else Fin (Max (set amounts)))
      \<and> averageDonation r =
          (if ds = [] then Fin 0 else Fin (sum_list amounts / real (length ds)))
      \<and> (ds = [] \<longrightarrow> r = \<lparr> totalRaised = 0, totalDonations = 0,
                               largestDonation = Fin 0, averageDonation = Fin 0 \<rparr>)"
  by (simp add: Let_def getStudentStats_def getDonationsByStudentId_def foldl_add_sum_list
      Math_max_nonempty js_div_def)

lemma example_donations_A:
  "getDonationsByStudentId example_store (Suc 0) =
     [\<lparr> d_studentId = 1, d_amount = Numeric 30, d_id = 1, d_createdAt = 4 \<rparr>,
      \<lparr> d_studentId = 1, d_amount = Numeric 40, d_id = 3, d_createdAt = 6 \<rparr>]"
  by (simp add: getDonationsByStudentId_def example_store_def map_values_def)

lemma example_donations_C: "getDonationsByStudentId example_store 3 = []"
  by (simp add: getDonationsByStudentId_def example_store_def map_values_def)

theorem getStudentStats_correct_witness:
  "getStudentStats example_store 1 =
     \<lparr> totalRaised = 70, totalDonations = 2, largestDonation = Fin 40,
       averageDonation = Fin 35 \<rparr>
   \<and> getDonationsByStudentId example_store 3 = []
   \<and> getStudentStats example_store 3 =
     \<lparr> totalRaised = 0, totalDonations = 0, largestDonation = Fin 0,
       averageDonation = Fin 0 \<rparr>"
  using getStudentStats_correct [of example_store 1] getStudentStats_correct [of example_store 3]
  by (simp add: Let_def example_donations_A example_donations_C)

section \<open>The statistics are reads\<close>

lemma getStudentsBySchoolId_method_eq:
  "getStudentsBySchoolId_method i s = (getStudentsBySchoolId s i, s)"
  by (simp add: getStudentsBySchoolId_method_def students_values_def getStudentsBySchoolId_def)

lemma getDonationsByStudentId_method_eq:
  "getDonationsByStudentId_method i s = (getDonationsByStudentId s i, s)"
  by (simp add: getDonationsByStudentId_method_def donations_values_def
      getDonationsByStudentId_def)

lemma getSchoolStats_method_eq: "getSchoolStats_method i s = (getSchoolStats s i, s)"
  by (simp add: getSchoolStats_method_def getStudentsBySchoolId_method_eq donations_values_def
      getSchoolStats_def Let_def)

lemma getStudentStats_method_eq: "getStudentStats_method i s = (getStudentStats s i, s)"
  by (simp add: getStudentStats_method_def getDonationsByStudentId_method_eq
      getStudentStats_def Let_def)

lemma map_method_reads:
  assumes "\<And>x s. f x s = (g s x, s)"
  shows "map_method f xs s = (map (g s) xs, s)"
  by (induction xs) (simp_all add: assms)

lemma getTopPerformingStudents_method_eq:
  "getTopPerformingStudents_method i limit s = (getTopPerformingStudents s i limit, s)"
proof -
  have "map_method
          (\<lambda>student s. let (stats, s') = getStudentStats_method (st_id student) s
                        in (withStats student stats, s'))
          xs s
        = (map (withProgress s) xs, s)" for xs
    by (rule map_method_reads) (simp add: getStudentStats_method_eq withProgress_def)
  then show ?thesis
    by (simp add: getTopPerformingStudents_method_def getStudentsBySchoolId_method_eq
        getTopPerformingStudents_def Let_def)
qed

lemmas reads =
  getSchoolStats_method_eq getStudentStats_method_eq getTopPerformingStudents_method_eq

text \<open>
  C7. \<open>getStudentStats\<close>, \<open>getSchoolStats\<close> and \<open>getTopPerformingStudents\<close>, run as the
  methods they are, with every call they make in turn, leave the store as they found
  it: the five collections and the five id counters. So does a call of them among other
  calls.
\<close>

theorem statistics_leave_store:
  "snd (getStudentStats_method i s) = s
   \<and> snd (getSchoolStats_method i s) = s
   \<and> snd (getTopPerformingStudents_method i limit s) = s
   \<and> snd (getStudentsBySchoolId_method i s) = s
   \<and> snd (getDonationsByStudentId_method i s) = s
   \<and> snd (call (GetStudentStats i) s) = s
   \<and> snd (call (GetSchoolStats i) s) = s
   \<and> snd (call (GetTopPerformingStudents i limit) s) = s"
  by (simp add: reads getStudentsBySchoolId_method_eq getDonationsByStudentId_method_eq)

section \<open>School statistics\<close>

text \<open>
  C2. For every school id: \<open>totalRaised\<close> is the sum of the amounts of the donations
  whose student id is the id of a student of that school, \<open>totalDonations\<close> is the
  count of those donations, and \<open>activeStudents\<close> is the number of students enrolled in
  the school, whatever their activity. A school without students gets the all-zero
  result.
\<close>

theorem getSchoolStats_correct:
  "let enrolled = filter (\<lambda>student. st_schoolId student = schoolId) (map_values (students s));
       ds = filter (\<lambda>d. \<exists>student \<in> set (map_values (students s)).
                       st_schoolId student = schoolId \<and> st_id student = d_studentId d)
              (map_values (donations s));
       r = getSchoolStats s schoolId
   in sc_totalRaised r = sum_list (map (\<lambda>d. Number (d_amount d)) ds)
      \<and> sc_totalDonations r = length ds
      \<and> activeStudents r = length enrolled
      \<and> (enrolled = [] \<longrightarrow>
            r = \<lparr> sc_totalRaised = 0, sc_totalDonations = 0, activeStudents = 0 \<rparr>)"
proof -
  have pred: "(\<lambda>d. d_studentId d \<in> set (map st_id (getStudentsBySchoolId s schoolId)))
      = (\<lambda>d. \<exists>student \<in> set (map_values (students s)).
               st_schoolId student = schoolId \<and> st_id student = d_studentId d)"
    by (rule ext) (force simp: getStudentsBySchoolId_def)
  have sums: "sc_totalRaised (getSchoolStats s schoolId) =
        sum_list (map (\<lambda>d. Number (d_amount d))
          (filter (\<lambda>d. \<exists>student \<in> set (map_values (students s)).
                       st_schoolId student = schoolId \<and> st_id student = d_studentId d)
             (map_values (donations s))))
      \<and> sc_totalDonations (getSchoolStats s schoolId) =
        length (filter (\<lambda>d. \<exists>student \<in> set (map_values (students s)).
                       st_schoolId student = schoolId \<and> st_id student = d_studentId d)
             (map_values (donations s)))
      \<and> activeStudents (getSchoolStats s schoolId) =
        length (filter (\<lambda>student. st_schoolId student = schoolId) (map_values (students s)))"
    unfolding getSchoolStats_def Let_def pred
    by (simp add: foldl_add_sum_list getStudentsBySchoolId_def)
  have zero: "getSchoolStats s schoolId =
      \<lparr> sc_totalRaised = 0, sc_totalDonations = 0, activeStudents = 0 \<rparr>"
    if "filter (\<lambda>student. st_schoolId student = schoolId) (map_values (students s)) = []"
    using that by (simp add: getSchoolStats_def Let_def getStudentsBySchoolId_def)
  show ?thesis
    unfolding Let_def using sums zero by blast
qed

lemma example_school_1:
  "getSchoolStats example_store 1 =
     \<lparr> sc_totalRaised = 120, sc_totalDonations = 3, activeStudents = 3 \<rparr>"
  by (simp add: getSchoolStats_def getStudentsBySchoolId_def example_store_def map_values_def)

theorem getSchoolStats_correct_witness:
  "getSchoolStats example_store 1 =
     \<lparr> sc_totalRaised = 120, sc_totalDonations = 3, activeStudents = 3 \<rparr>
   \<and> getStudentsBySchoolId example_store 2 = []
   \<and> getSchoolStats example_store 2 =
     \<lparr> sc_totalRaised = 0, sc_totalDonations = 0, activeStudents = 0 \<rparr>"
  using getSchoolStats_correct [of 1 example_store] getSchoolStats_correct [of 2 example_store]
  by (simp add: Let_def example_school_1 [unfolded One_nat_def])
    (simp add: getStudentsBySchoolId_def example_store_def map_values_def)

section \<open>Schools that do not exist\<close>









section \<open>Map objects\<close>

lemma map_set_fresh: "k \<notin> set (map fst m) \<Longrightarrow> map_set m k v = m @ [(k, v)]"
  by (induction m) auto

lemma keys_map_set_fresh:
  "list_all (\<lambda>k. k < n) (map fst m) \<Longrightarrow> map fst (map_set m n v) = map fst m @ [n]"
  by (subst map_set_fresh) (auto simp: list_all_iff)

lemma keys_map_delete: "subseq (map fst (map_delete m k)) (map fst m)"
  unfolding map_delete_def by (rule subseq_map) simp

lemma set_map_delete: "set (map_delete m k) \<subseteq> set m"
  by (auto simp: map_delete_def)

lemma list_all_less_mono: "list_all (\<lambda>k. k < n) ks \<Longrightarrow> list_all (\<lambda>k. k < Suc n) ks"
  by (auto simp: list_all_iff)

lemma map_get_map_set:
  "map_get (map_set m k v) j = (if j = k then Some v else map_get m j)"
  by (induction m) (auto simp: map_get_def)

lemma keys_map_set_present:
  "map_get m k \<noteq> None \<Longrightarrow> map fst (map_set m k v) = map fst m"
  by (induction m) (auto simp: map_get_def)

section \<open>Students reference existing schools\<close>

text \<open>
  No call of the storage but \<open>createStudent\<close> can break the references, since no school
  is ever removed; and the registration, the only caller of \<open>createStudent\<close>, keeps
  them, since it looks the school up first.
\<close>

lemma references_unchanged:
  assumes "students_reference_schools s"
    and "students s' = students s"
    and "\<And>i. getSchool s i \<noteq> None \<Longrightarrow> getSchool s' i \<noteq> None"
  shows "students_reference_schools s'"
  using assms by (auto simp: students_reference_schools_def list_all_iff)

lemma references_call:
  assumes "students_reference_schools s" and "\<And>now x. r \<noteq> CreateStudent now x"
  shows "students_reference_schools (snd (call r s))"
proof (cases r)
  case (CreateStudent now x)
  then show ?thesis using assms(2) by simp
next
  case (CreateUser now x)
  show ?thesis
    unfolding CreateUser
    by (rule references_unchanged [OF assms(1)])
      (simp_all add: createUser_def Let_def getSchool_def split_beta)
next
  case (CreateSchool now x)
  show ?thesis
    unfolding CreateSchool
    by (rule references_unchanged [OF assms(1)])
      (simp_all add: createSchool_def Let_def getSchool_def map_get_map_set split_beta)
next
  case (CreateDonation now x)
  show ?thesis
    unfolding CreateDonation
    by (rule references_unchanged [OF assms(1)]) (simp_all add: createDonation_def Let_def getSchool_def split_beta)
next
  case (CreateEvent now x)
  show ?thesis
    unfolding CreateEvent
    by (rule references_unchanged [OF assms(1)]) (simp_all add: createEvent_def Let_def getSchool_def split_beta)
next
  case (UpdateEvent i patch)
  show ?thesis
    unfolding UpdateEvent
    by (rule references_unchanged [OF assms(1)])
      (simp_all add: updateEvent_def Let_def getSchool_def split_beta split: option.split)
next
  case (DeleteEvent i)
  show ?thesis
    unfolding DeleteEvent
    by (rule references_unchanged [OF assms(1)])
      (simp_all add: deleteEvent_def getSchool_def split_beta split: option.split)
next
  case (GetSchoolStats i)
  then show ?thesis using assms(1) by (simp add: reads)
next
  case (GetStudentStats i)
  then show ?thesis using assms(1) by (simp add: reads)
next
  case (GetTopPerformingStudents i limit)
  then show ?thesis using assms(1) by (simp add: reads)
qed

lemma set_map_set: "set (map_set m k v) \<subseteq> insert (k, v) (set m)"
  by (induction m) (auto split: if_splits)

lemma references_createStudent:
  assumes "students_reference_schools s" and "getSchool s (st_schoolId x) \<noteq> None"
  shows "students_reference_schools (snd (createStudent s now x))"
proof -
  let ?student = "insertStudent.extend x (student.fields (studentCurrentId s) now)"
  have same: "st_schoolId ?student = st_schoolId x"
    by (simp add: insertStudent.defs student.defs)
  have "getSchool s (st_schoolId (snd e)) \<noteq> None"
    if "e \<in> set (map_set (students s) (studentCurrentId s) ?student)" for e
  proof -
    from that set_map_set
    have "e = (studentCurrentId s, ?student) \<or> e \<in> set (students s)"
      by fastforce
    then show ?thesis
      using assms same
      by (auto simp: students_reference_schools_def map_values_def list_all_iff)
  qed
  moreover have "students (snd (createStudent s now x))
      = map_set (students s) (studentCurrentId s) ?student"
    by (simp add: createStudent_def Let_def)
  moreover have "getSchool (snd (createStudent s now x)) i = getSchool s i" for i
    by (simp add: createStudent_def Let_def getSchool_def)
  ultimately show ?thesis
    by (simp add: students_reference_schools_def map_values_def list_all_iff)
qed

lemma references_registerStudent:
  assumes "students_reference_schools s"
  shows "students_reference_schools (snd (registerStudent s now1 now2 body))"
proof (cases "getSchool s (r_schoolId body) = None
    \<or> getUserByUsername s (r_username body) \<noteq> None
    \<or> getUserByEmail s (r_email body) \<noteq> None")
  case True
  then have "snd (registerStudent s now1 now2 body) = s"
    by (auto simp: registerStudent_def)
  then show ?thesis using assms by simp
next
  case False
  let ?u = "\<lparr> username = r_username body, email = r_email body,
             password = r_passwordHash body, role = ''student'' \<rparr>"
  let ?s1 = "snd (createUser s now1 ?u)"
  let ?x = "\<lparr> st_userId = u_id (fst (createUser s now1 ?u)), st_schoolId = r_schoolId body,
             firstName = r_firstName body, lastName = r_lastName body,
             grade = r_grade body, personalGoal = r_personalGoal body \<rparr>"
  have result: "snd (registerStudent s now1 now2 body) = snd (createStudent ?s1 now2 ?x)"
    using False by (auto simp: registerStudent_def split_beta)
  have inv1: "students_reference_schools ?s1"
    using references_call [OF assms, of "CreateUser now1 ?u"] by (simp add: split_beta)
  have "getSchool ?s1 (r_schoolId body) \<noteq> None"
    using False by (simp add: createUser_def Let_def getSchool_def)
  then show ?thesis
    unfolding result using references_createStudent [OF inv1, of ?x now2] by simp
qed

section \<open>Updating an event\<close>

lemma example_event:
  "getEvent example_store (Suc 0) =
     Some [''id'' \<mapsto> NumV 1, ''createdAt'' \<mapsto> DateV 7, ''schoolId'' \<mapsto> NumV 1,
           ''title'' \<mapsto> StrV ''Fair'', ''date'' \<mapsto> DateV 100]"
  by (simp add: getEvent_def map_get_def example_store_def)

lemma example_no_event: "getEvent example_store 5 = None"
  by (simp add: getEvent_def map_get_def example_store_def)

text \<open>
  C10, as the specification states it: the updated event keeps its \<open>id\<close>. The route
  \<open>PUT /api/events/:id\<close> hands the body of the request to \<open>updateEvent\<close> as it comes,
  and a body that holds an \<open>id\<close> replaces the one of the event: the event 1 of the
  example, updated with the patch \<open>{id: 99}\<close>, is returned and stored with the \<open>id\<close> 99,
  still under the key 1, and there is no event under the key 99.
\<close>

theorem updateEvent_replaces_id:
  "the (getEvent example_store 1) ''id'' = Some (NumV 1)
   \<and> the (fst (updateEvent example_store 1 id_patch)) ''id'' = Some (NumV 99)
   \<and> the (getEvent (snd (updateEvent example_store 1 id_patch)) 1) ''id'' = Some (NumV 99)
   \<and> getEvent (snd (updateEvent example_store 1 id_patch)) 99 = None"
proof -
  let ?e = "[''id'' \<mapsto> NumV 1, ''createdAt'' \<mapsto> DateV 7, ''schoolId'' \<mapsto> NumV 1,
             ''title'' \<mapsto> StrV ''Fair'', ''date'' \<mapsto> DateV 100]"
  have upd: "updateEvent example_store 1 id_patch
      = (Some (?e ++ id_patch),
         example_store\<lparr>events := map_set (events example_store) 1 (?e ++ id_patch)\<rparr>)"
    by (simp add: updateEvent_def example_event Let_def)
  have held: "events example_store = [(1, ?e)]"
    by (simp add: example_store_def)
  then have stored: "events (snd (updateEvent example_store 1 id_patch)) = [(1, ?e ++ id_patch)]"
    unfolding upd by simp
  have returned: "fst (updateEvent example_store 1 id_patch) = Some (?e ++ id_patch)"
    unfolding upd by simp
  show ?thesis
    unfolding returned getEvent_def stored held
    by (simp add: map_get_def id_patch_def)
qed

text \<open>
  C10, as amended. \<open>updateEvent\<close> on an id that is not in the events returns
  \<open>undefined\<close> and leaves the store as it is. On an id that is there, it returns the
  updated event and stores it under the same key, at the same place, leaving the other
  events alone; every property that is not in the patch is kept and every property that
  is in the patch has the patch's value. So the event keeps its \<open>id\<close> and its
  \<open>createdAt\<close> when the patch holds neither, and takes the patch's when it holds them.
\<close>

theorem updateEvent_frame:
  "(getEvent s i = None \<longrightarrow> updateEvent s i patch = (None, s))
   \<and> (\<forall>existing. getEvent s i = Some existing \<longrightarrow>
         (\<exists>updated. updateEvent s i patch
                       = (Some updated, s\<lparr>events := map_set (events s) i updated\<rparr>)
            \<and> getEvent (snd (updateEvent s i patch)) i = Some updated
            \<and> (\<forall>j. j \<noteq> i \<longrightarrow>
                  getEvent (snd (updateEvent s i patch)) j = getEvent s j)
            \<and> map fst (events (snd (updateEvent s i patch))) = map fst (events s)
            \<and> (\<forall>k. k \<notin> dom patch \<longrightarrow> updated k = existing k)
            \<and> (\<forall>k \<in> dom patch. updated k = patch k)
            \<and> (''id'' \<notin> dom patch \<longrightarrow> updated ''id'' = existing ''id'')
            \<and> (''createdAt'' \<notin> dom patch \<longrightarrow>
                  updated ''createdAt'' = existing ''createdAt'')
            \<and> (''id'' \<in> dom patch \<longrightarrow> updated ''id'' = patch ''id'')
            \<and> (''createdAt'' \<in> dom patch \<longrightarrow>
                  updated ''createdAt'' = patch ''createdAt'')))"
proof (intro conjI allI impI)
  assume "getEvent s i = None"
  then show "updateEvent s i patch = (None, s)"
    by (simp add: updateEvent_def)
next
  fix existing
  assume ex: "getEvent s i = Some existing"
  let ?u = "existing ++ patch"
  have upd: "updateEvent s i patch = (Some ?u, s\<lparr>events := map_set (events s) i ?u\<rparr>)"
    using ex by (simp add: updateEvent_def Let_def)
  have stored: "getEvent (snd (updateEvent s i patch)) i = Some ?u"
    by (simp add: upd getEvent_def map_get_map_set)
  have others: "\<forall>j. j \<noteq> i \<longrightarrow> getEvent (snd (updateEvent s i patch)) j = getEvent s j"
    by (simp add: upd getEvent_def map_get_map_set)
  have keys: "map fst (events (snd (updateEvent s i patch))) = map fst (events s)"
    using ex by (simp add: upd getEvent_def keys_map_set_present)
  have kept: "\<forall>k. k \<notin> dom patch \<longrightarrow> ?u k = existing k"
    by (simp add: map_add_dom_app_simps)
  have replaced: "\<forall>k \<in> dom patch. ?u k = patch k"
    by (simp add: map_add_dom_app_simps)
  show "\<exists>updated. updateEvent s i patch
                       = (Some updated, s\<lparr>events := map_set (events s) i updated\<rparr>)
            \<and> getEvent (snd (updateEvent s i patch)) i = Some updated
            \<and> (\<forall>j. j \<noteq> i \<longrightarrow>
                  getEvent (snd (updateEvent s i patch)) j = getEvent s j)
            \<and> map fst (events (snd (updateEvent s i patch))) = map fst (events s)
            \<and> (\<forall>k. k \<notin> dom patch \<longrightarrow> updated k = existing k)
            \<and> (\<forall>k \<in> dom patch. updated k = patch k)
            \<and> (''id'' \<notin> dom patch \<longrightarrow> updated ''id'' = existing ''id'')
            \<and> (''createdAt'' \<notin> dom patch \<longrightarrow>
                  updated ''createdAt'' = existing ''createdAt'')
            \<and> (''id'' \<in> dom patch \<longrightarrow> updated ''id'' = patch ''id'')
            \<and> (''createdAt'' \<in> dom patch \<longrightarrow>
                  updated ''createdAt'' = patch ''createdAt'')"
    using upd stored others keys kept replaced by blast
qed

theorem updateEvent_frame_witness:
  "getEvent example_store 5 = None
   \<and> updateEvent example_store 5 example_patch = (None, example_store)
   \<and> (\<exists>updated. fst (updateEvent example_store 1 example_patch) = Some updated
        \<and> getEvent (snd (updateEvent example_store 1 example_patch)) 1 = Some updated
        \<and> updated ''title'' = Some (StrV ''Gala'')
        \<and> updated ''id'' = Some (NumV 1)
        \<and> updated ''createdAt'' = Some (DateV 7)
        \<and> updated ''date'' = Some (DateV 100))
   \<and> (\<exists>updated. fst (updateEvent example_store 1 id_patch) = Some updated
        \<and> updated ''id'' = Some (NumV 99)
        \<and> updated ''createdAt'' = Some (DateV 7))"
proof -
  have dom: "dom example_patch = {''title''}"
    by (simp add: example_patch_def)
  from updateEvent_frame [of example_store 1 example_patch] example_event
  obtain updated where u:
    "updateEvent example_store 1 example_patch
       = (Some updated, example_store\<lparr>events := map_set (events example_store) 1 updated\<rparr>)"
    "getEvent (snd (updateEvent example_store 1 example_patch)) 1 = Some updated"
    "\<forall>k. k \<notin> dom example_patch \<longrightarrow> updated k =
       [''id'' \<mapsto> NumV 1, ''createdAt'' \<mapsto> DateV 7, ''schoolId'' \<mapsto> NumV 1,
        ''title'' \<mapsto> StrV ''Fair'', ''date'' \<mapsto> DateV 100] k"
    "\<forall>k \<in> dom example_patch. updated k = example_patch k"
    by auto
  have "updated ''title'' = Some (StrV ''Gala'')"
    using u(4) by (simp add: dom) (simp add: example_patch_def)
  moreover have "updated ''id'' = Some (NumV 1)" "updated ''createdAt'' = Some (DateV 7)"
    "updated ''date'' = Some (DateV 100)"
    using u(3) by (simp_all add: dom)
  moreover have "updateEvent example_store 5 example_patch = (None, example_store)"
    using updateEvent_frame [of example_store 5 example_patch] example_no_event by simp
  moreover have "\<exists>updated. fst (updateEvent example_store 1 id_patch) = Some updated
        \<and> updated ''id'' = Some (NumV 99)
        \<and> updated ''createdAt'' = Some (DateV 7)"
  proof -
    have dom': "dom id_patch = {''id''}"
      by (simp add: id_patch_def)
    from updateEvent_frame [of example_store 1 id_patch] example_event
    obtain updated where v:
      "updateEvent example_store 1 id_patch
         = (Some updated, example_store\<lparr>events := map_set (events example_store) 1 updated\<rparr>)"
      "''id'' \<in> dom id_patch \<longrightarrow> updated ''id'' = id_patch ''id''"
      "''createdAt'' \<notin> dom id_patch \<longrightarrow> updated ''createdAt'' =
         [''id'' \<mapsto> NumV 1, ''createdAt'' \<mapsto> DateV 7, ''schoolId'' \<mapsto> NumV 1,
          ''title'' \<mapsto> StrV ''Fair'', ''date'' \<mapsto> DateV 100] ''createdAt''"
      by auto
    have "updated ''id'' = Some (NumV 99)"
      using v(2) by (simp add: dom') (simp add: id_patch_def)
    moreover have "updated ''createdAt'' = Some (DateV 7)"
      using v(3) by (simp add: dom')
    ultimately show ?thesis
      using v(1) by simp
  qed
  ultimately show ?thesis
    using u(1,2) example_no_event by simp
qed

section \<open>Ids assigned by the creations\<close>

lemma assigned_ids_Cons:
  "assigned_ids c (x # xs) = assigned_ids c [x] @ assigned_ids c xs"
  by (simp add: assigned_ids_def)

lemma upt_join: "a \<le> b \<Longrightarrow> b \<le> c \<Longrightarrow> [a ..< b] @ [b ..< c] = [a ..< c]"
  using upt_add_eq_append [of a b "c - b"] by simp

lemma call_assigned:
  "assigned_ids c [fst (call r s)] = [counter c s ..< counter c (snd (call r s))]
   \<and> counter c s \<le> counter c (snd (call r s))"
proof (cases r)
  case (CreateUser now x)
  then show ?thesis
    by (cases c) (simp_all add: assigned_ids_def createUser_def Let_def insertUser.defs user.defs)
next
  case (CreateSchool now x)
  then show ?thesis
    by (cases c)
      (simp_all add: assigned_ids_def createSchool_def Let_def insertSchool.defs school.defs)
next
  case (CreateStudent now x)
  then show ?thesis
    by (cases c)
      (simp_all add: assigned_ids_def createStudent_def Let_def insertStudent.defs student.defs)
next
  case (CreateDonation now x)
  then show ?thesis
    by (cases c)
      (simp_all add: assigned_ids_def createDonation_def Let_def insertDonation.defs
        donation.defs)
next
  case (CreateEvent now x)
  then show ?thesis
    by (cases c) (simp_all add: assigned_ids_def createEvent_def Let_def event_id_def)
next
  case (UpdateEvent i patch)
  then show ?thesis
    by (cases c) (simp_all add: assigned_ids_def updateEvent_def Let_def split: option.split)
next
  case (DeleteEvent i)
  then show ?thesis
    by (cases c) (simp_all add: assigned_ids_def deleteEvent_def split: option.split)
next
  case (GetSchoolStats i)
  then show ?thesis by (simp add: assigned_ids_def reads)
next
  case (GetStudentStats i)
  then show ?thesis by (simp add: assigned_ids_def reads)
next
  case (GetTopPerformingStudents i limit)
  then show ?thesis by (simp add: assigned_ids_def reads)
qed

lemma run_assigned:
  "assigned_ids c (fst (run rs s)) = [counter c s ..< counter c (snd (run rs s))]
   \<and> counter c s \<le> counter c (snd (run rs s))"
proof (induction rs arbitrary: s)
  case Nil
  show ?case by (simp add: assigned_ids_def)
next
  case (Cons r rs)
  obtain x s1 where c: "call r s = (x, s1)" by (cases "call r s")
  obtain xs s2 where r: "run rs s1 = (xs, s2)" by (cases "run rs s1")
  have one: "assigned_ids c [x] = [counter c s ..< counter c s1]" "counter c s \<le> counter c s1"
    using call_assigned [of c r s] c by simp_all
  have rest: "assigned_ids c xs = [counter c s1 ..< counter c s2]" "counter c s1 \<le> counter c s2"
    using Cons.IH [of s1] r by simp_all
  have "assigned_ids c (x # xs) = [counter c s ..< counter c s2]"
    using one rest by (simp add: assigned_ids_Cons [of c x xs] upt_join)
  then show ?case
    using one(2) rest(2) c r by simp
qed

lemma call_keys:
  assumes "fresh c s"
  shows "subseq (keys c (snd (call r s))) (keys c s @ assigned_ids c [fst (call r s)])
         \<and> fresh c (snd (call r s))"
proof (cases r)
  case (CreateUser now x)
  then show ?thesis
    using assms
    by (cases c)
      (simp_all add: fresh_def assigned_ids_def createUser_def Let_def insertUser.defs
        user.defs keys_map_set_fresh list_all_less_mono)
next
  case (CreateSchool now x)
  then show ?thesis
    using assms
    by (cases c)
      (simp_all add: fresh_def assigned_ids_def createSchool_def Let_def insertSchool.defs
        school.defs keys_map_set_fresh list_all_less_mono)
next
  case (CreateStudent now x)
  then show ?thesis
    using assms
    by (cases c)
      (simp_all add: fresh_def assigned_ids_def createStudent_def Let_def insertStudent.defs
        student.defs keys_map_set_fresh list_all_less_mono)
next
  case (CreateDonation now x)
  then show ?thesis
    using assms
    by (cases c)
      (simp_all add: fresh_def assigned_ids_def createDonation_def Let_def
        insertDonation.defs donation.defs keys_map_set_fresh list_all_less_mono)
next
  case (CreateEvent now x)
  then show ?thesis
    using assms
    by (cases c)
      (simp_all add: fresh_def assigned_ids_def createEvent_def Let_def keys_map_set_fresh
        list_all_less_mono event_id_def)
next
  case (UpdateEvent i patch)
  then show ?thesis
    using assms
    by (cases c)
      (auto simp: fresh_def assigned_ids_def updateEvent_def Let_def getEvent_def
        keys_map_set_present split: option.split)
next
  case (DeleteEvent i)
  then show ?thesis
    using assms
    by (cases c)
      (use set_map_delete [of "events s" i] in
        \<open>auto simp: fresh_def assigned_ids_def deleteEvent_def keys_map_delete list_all_iff
          split: option.split\<close>)
next
  case (GetSchoolStats i)
  then show ?thesis using assms by (simp add: assigned_ids_def reads)
next
  case (GetStudentStats i)
  then show ?thesis using assms by (simp add: assigned_ids_def reads)
next
  case (GetTopPerformingStudents i limit)
  then show ?thesis using assms by (simp add: assigned_ids_def reads)
qed

lemma run_keys:
  assumes "fresh c s"
  shows "subseq (keys c (snd (run rs s))) (keys c s @ assigned_ids c (fst (run rs s)))"
  using assms
proof (induction rs arbitrary: s)
  case Nil
  show ?case by (simp add: assigned_ids_def)
next
  case (Cons r rs)
  obtain x s1 where c: "call r s = (x, s1)" by (cases "call r s")
  obtain xs s2 where r: "run rs s1 = (xs, s2)" by (cases "run rs s1")
  have one: "subseq (keys c s1) (keys c s @ assigned_ids c [x])" and f1: "fresh c s1"
    using call_keys [OF Cons.prems, of r] c by simp_all
  have rest: "subseq (keys c s2) (keys c s1 @ assigned_ids c xs)"
    using Cons.IH [OF f1] r by simp
  have "subseq (keys c s1 @ assigned_ids c xs)
          ((keys c s @ assigned_ids c [x]) @ assigned_ids c xs)"
    using one by (rule list_emb_append_mono) simp
  then have "subseq (keys c s2) (keys c s @ assigned_ids c (x # xs))"
    using rest by (metis append.assoc assigned_ids_Cons subseq_order.order_trans)
  then show ?case
    using c r by simp
qed

lemma call_keys_eq:
  assumes "fresh c s" and "\<not> deletes r"
  shows "keys c (snd (call r s)) = keys c s @ assigned_ids c [fst (call r s)]"
proof (cases r)
  case (CreateUser now x)
  then show ?thesis
    using assms(1)
    by (cases c)
      (simp_all add: fresh_def assigned_ids_def createUser_def Let_def insertUser.defs
        user.defs keys_map_set_fresh)
next
  case (CreateSchool now x)
  then show ?thesis
    using assms(1)
    by (cases c)
      (simp_all add: fresh_def assigned_ids_def createSchool_def Let_def insertSchool.defs
        school.defs keys_map_set_fresh)
next
  case (CreateStudent now x)
  then show ?thesis
    using assms(1)
    by (cases c)
      (simp_all add: fresh_def assigned_ids_def createStudent_def Let_def insertStudent.defs
        student.defs keys_map_set_fresh)
next
  case (CreateDonation now x)
  then show ?thesis
    using assms(1)
    by (cases c)
      (simp_all add: fresh_def assigned_ids_def createDonation_def Let_def
        insertDonation.defs donation.defs keys_map_set_fresh)
next
  case (CreateEvent now x)
  then show ?thesis
    using assms(1)
    by (cases c)
      (simp_all add: fresh_def assigned_ids_def createEvent_def Let_def keys_map_set_fresh
        event_id_def)
next
  case (UpdateEvent i patch)
  then show ?thesis
    by (cases c)
      (auto simp: assigned_ids_def updateEvent_def Let_def getEvent_def
        keys_map_set_present split: option.split)
next
  case (DeleteEvent i)
  then show ?thesis using assms(2) by simp
next
  case (GetSchoolStats i)
  then show ?thesis by (simp add: assigned_ids_def reads)
next
  case (GetStudentStats i)
  then show ?thesis by (simp add: assigned_ids_def reads)
next
  case (GetTopPerformingStudents i limit)
  then show ?thesis by (simp add: assigned_ids_def reads)
qed

lemma run_keys_eq:
  assumes "fresh c s" and "\<not> list_ex deletes rs"
  shows "keys c (snd (run rs s)) = keys c s @ assigned_ids c (fst (run rs s))"
  using assms
proof (induction rs arbitrary: s)
  case Nil
  show ?case by (simp add: assigned_ids_def)
next
  case (Cons r rs)
  obtain x s1 where c: "call r s = (x, s1)" by (cases "call r s")
  obtain xs s2 where r: "run rs s1 = (xs, s2)" by (cases "run rs s1")
  have nd: "\<not> deletes r" "\<not> list_ex deletes rs"
    using Cons.prems(2) by simp_all
  have one: "keys c s1 = keys c s @ assigned_ids c [x]"
    using call_keys_eq [OF Cons.prems(1) nd(1)] c by simp
  have f1: "fresh c s1"
    using call_keys [OF Cons.prems(1), of r] c by simp
  have rest: "keys c s2 = keys c s1 @ assigned_ids c xs"
    using Cons.IH [OF f1 nd(2)] r by simp
  have "keys c s2 = keys c s @ assigned_ids c (x # xs)"
    unfolding rest one by (simp add: assigned_ids_Cons [of c x xs])
  then show ?case
    using c r by simp
qed

lemma call_count:
  "length (assigned_ids c [fst (call r s)]) = length (filter (creates c) [r])"
proof (cases r)
  case (CreateUser now x)
  then show ?thesis by (cases c) (simp_all add: assigned_ids_def split_beta)
next
  case (CreateSchool now x)
  then show ?thesis by (cases c) (simp_all add: assigned_ids_def split_beta)
next
  case (CreateStudent now x)
  then show ?thesis by (cases c) (simp_all add: assigned_ids_def split_beta)
next
  case (CreateDonation now x)
  then show ?thesis by (cases c) (simp_all add: assigned_ids_def split_beta)
next
  case (CreateEvent now x)
  then show ?thesis by (cases c) (simp_all add: assigned_ids_def split_beta)
next
  case (UpdateEvent i patch)
  then show ?thesis by (cases c) (simp_all add: assigned_ids_def split_beta)
next
  case (DeleteEvent i)
  then show ?thesis by (cases c) (simp_all add: assigned_ids_def split_beta)
next
  case (GetSchoolStats i)
  then show ?thesis by (cases c) (simp_all add: assigned_ids_def split_beta)
next
  case (GetStudentStats i)
  then show ?thesis by (cases c) (simp_all add: assigned_ids_def split_beta)
next
  case (GetTopPerformingStudents i limit)
  then show ?thesis by (cases c) (simp_all add: assigned_ids_def split_beta)
qed

lemma run_count:
  "length (assigned_ids c (fst (run rs s))) = length (filter (creates c) rs)"
proof (induction rs arbitrary: s)
  case Nil
  show ?case by (simp add: assigned_ids_def)
next
  case (Cons r rs)
  obtain x s1 where c: "call r s = (x, s1)" by (cases "call r s")
  obtain xs s2 where r: "run rs s1 = (xs, s2)" by (cases "run rs s1")
  have one: "length (assigned_ids c [x]) = length (filter (creates c) [r])"
    using call_count [of c r s] c by simp
  have rest: "length (assigned_ids c xs) = length (filter (creates c) rs)"
    using Cons.IH [of s1] r by simp
  have "length (assigned_ids c (x # xs)) = length (filter (creates c) (r # rs))"
    using one rest by (simp add: assigned_ids_Cons [of c x xs])
  then show ?case
    using c r by simp
qed

lemma constructor_keys: "keys c constructor = []" "fresh c constructor"
  by (cases c; simp add: constructor_def fresh_def)+

text \<open>
  C8. For every sequence of calls on a new store, and for each of the five collections:
  every creation among the calls is assigned an id, and the ids assigned, taken in the
  order of the creations, are 1, 2, 3, and so on; so they are positive, pairwise
  different and strictly increasing in the order of creation. The id counter ends one
  above the last of them. The keys that the collection holds in the end are among the
  assigned ids, in the same order, and they are all of them when no call deletes.
\<close>

theorem assigned_ids_increase:
  "let ids = assigned_ids c (fst (run requests constructor));
       s = snd (run requests constructor)
   in length ids = length (filter (creates c) requests)
      \<and> ids = [1 ..< Suc (length ids)]
      \<and> sorted_wrt (<) ids \<and> distinct ids \<and> list_all (\<lambda>i. 0 < i) ids
      \<and> counter c s = Suc (length ids)
      \<and> subseq (keys c s) ids
      \<and> (\<not> list_ex deletes requests \<longrightarrow> keys c s = ids)"
proof -
  let ?n = "counter c (snd (run requests constructor))"
  have start: "counter c constructor = 1"
    by (cases c) (simp_all add: constructor_def)
  have ids: "assigned_ids c (fst (run requests constructor)) = [1 ..< ?n]" and "1 \<le> ?n"
    using run_assigned [of c requests constructor] start by simp_all
  then have len: "Suc (length [1 ..< ?n]) = ?n"
    by simp
  have count: "length [1 ..< ?n] = length (filter (creates c) requests)"
    using run_count [of c requests constructor] unfolding ids .
  have stored: "subseq (keys c (snd (run requests constructor))) [1 ..< ?n]"
    using run_keys [OF constructor_keys(2), of c requests] ids
    by (simp add: constructor_keys(1))
  have all: "keys c (snd (run requests constructor)) = [1 ..< ?n]"
    if "\<not> list_ex deletes requests"
    using run_keys_eq [OF constructor_keys(2) that, of c] ids
    by (simp add: constructor_keys(1))
  have "length [1 ..< ?n] = length (filter (creates c) requests)
      \<and> [1 ..< ?n] = [1 ..< Suc (length [1 ..< ?n])]
      \<and> sorted_wrt (<) [1 ..< ?n] \<and> distinct [1 ..< ?n] \<and> list_all (\<lambda>i. 0 < i) [1 ..< ?n]
      \<and> ?n = Suc (length [1 ..< ?n])
      \<and> subseq (keys c (snd (run requests constructor))) [1 ..< ?n]
      \<and> (\<not> list_ex deletes requests \<longrightarrow> keys c (snd (run requests constructor)) = [1 ..< ?n])"
    using len count stored all by (simp add: list_all_iff)
  then show ?thesis
    unfolding Let_def ids .
qed

text \<open>Two events created, and a school between them; no call deletes.\<close>

theorem assigned_ids_increase_witness:
  "assigned_ids Events
     (fst (run [CreateEvent 5 Map.empty, CreateSchool 6 example_insertSchool,
                CreateEvent 7 Map.empty] constructor)) = [1, 2]
   \<and> keys Events
       (snd (run [CreateEvent 5 Map.empty, CreateSchool 6 example_insertSchool,
                  CreateEvent 7 Map.empty] constructor)) = [1, 2]
   \<and> counter Events
       (snd (run [CreateEvent 5 Map.empty, CreateSchool 6 example_insertSchool,
                  CreateEvent 7 Map.empty] constructor)) = 3
   \<and> assigned_ids Schools
       (fst (run [CreateEvent 5 Map.empty, CreateSchool 6 example_insertSchool,
                  CreateEvent 7 Map.empty] constructor)) = [1]"
proof -
  let ?rs = "[CreateEvent 5 Map.empty, CreateSchool 6 example_insertSchool,
              CreateEvent 7 Map.empty]"
  have no_delete: "\<not> list_ex deletes ?rs"
    by simp
  have two: "[1 ..< Suc 2] = [1, 2::nat]" and one: "[1 ..< Suc 1] = [1::nat]"
    by (simp_all add: upt_rec)
  have events: "length (filter (creates Events) ?rs) = 2"
    and schools: "length (filter (creates Schools) ?rs) = 1"
    by simp_all
  from assigned_ids_increase [of Events ?rs] no_delete
  have "assigned_ids Events (fst (run ?rs constructor)) = [1, 2]
      \<and> keys Events (snd (run ?rs constructor)) = [1, 2]
      \<and> counter Events (snd (run ?rs constructor)) = 3"
    unfolding Let_def events using two by (metis eval_nat_numeral(3))
  moreover from assigned_ids_increase [of Schools ?rs]
  have "assigned_ids Schools (fst (run ?rs constructor)) = [1]"
    unfolding Let_def schools using one by metis
  ultimately show ?thesis
    by blast
qed

section \<open>School and student statistics agree\<close>

lemma students_inv_constructor: "students_inv constructor"
  by (simp add: students_inv_def constructor_def)

lemma students_inv_createStudent:
  assumes "students_inv s"
  shows "students_inv (snd (createStudent s now x))"
proof -
  have fresh: "studentCurrentId s \<notin> set (map fst (students s))"
    using assms by (auto simp: students_inv_def list_all_iff)
  show ?thesis
    using assms fresh
    by (auto simp: students_inv_def createStudent_def Let_def map_set_fresh list_all_iff
        insertStudent.defs student.defs)
qed

lemma students_inv_call:
  assumes "students_inv s"
  shows "students_inv (snd (call r s))"
proof (cases r)
  case (CreateStudent now x)
  then show ?thesis
    using students_inv_createStudent [OF assms, of now x] by (simp add: split_beta)
next
  case (CreateUser now x)
  then show ?thesis using assms by (simp add: students_inv_def createUser_def Let_def)
next
  case (CreateSchool now x)
  then show ?thesis using assms by (simp add: students_inv_def createSchool_def Let_def)
next
  case (CreateDonation now x)
  then show ?thesis using assms by (simp add: students_inv_def createDonation_def Let_def)
next
  case (CreateEvent now x)
  then show ?thesis using assms by (simp add: students_inv_def createEvent_def Let_def)
next
  case (UpdateEvent i patch)
  then show ?thesis
    using assms by (simp add: students_inv_def updateEvent_def Let_def split: option.split)
next
  case (DeleteEvent i)
  then show ?thesis
    using assms by (simp add: students_inv_def deleteEvent_def split: option.split)
next
  case (GetSchoolStats i)
  then show ?thesis using assms by (simp add: reads)
next
  case (GetStudentStats i)
  then show ?thesis using assms by (simp add: reads)
next
  case (GetTopPerformingStudents i limit)
  then show ?thesis using assms by (simp add: reads)
qed

lemma students_inv_run: "students_inv s \<Longrightarrow> students_inv (snd (run rs s))"
proof (induction rs arbitrary: s)
  case Nil
  then show ?case by simp
next
  case (Cons r rs)
  have "students_inv (snd (run rs (snd (call r s))))"
    using Cons.IH [OF students_inv_call [OF Cons.prems]] .
  then show ?case
    by (simp add: split_beta)
qed

lemma students_inv_distinct_ids:
  assumes "students_inv s"
  shows "distinct (map st_id (getStudentsBySchoolId s schoolId))"
proof -
  have "map st_id (map_values (students s)) = map fst (students s)"
    using assms by (auto simp: students_inv_def map_values_def list_all_iff)
  then have "distinct (map st_id (map_values (students s)))"
    using assms by (simp add: students_inv_def)
  then show ?thesis
    by (simp add: getStudentsBySchoolId_def distinct_map_filter)
qed

lemma sum_list_filter_disj:
  fixes g :: "'a \<Rightarrow> 'b::comm_monoid_add"
  assumes "\<And>x. x \<in> set xs \<Longrightarrow> \<not> (P x \<and> Q x)"
  shows "sum_list (map g (filter (\<lambda>x. P x \<or> Q x) xs))
         = sum_list (map g (filter P xs)) + sum_list (map g (filter Q xs))"
  using assms by (induction xs) (auto simp: ac_simps)

lemma sum_list_by_key:
  fixes g :: "'a \<Rightarrow> 'b::comm_monoid_add"
  assumes "distinct ks"
  shows "sum_list (map g (filter (\<lambda>x. f x \<in> set ks) xs))
         = sum_list (map (\<lambda>k. sum_list (map g (filter (\<lambda>x. f x = k) xs))) ks)"
  using assms
proof (induction ks)
  case Nil
  show ?case by simp
next
  case (Cons k ks)
  have "sum_list (map g (filter (\<lambda>x. f x \<in> set (k # ks)) xs))
        = sum_list (map g (filter (\<lambda>x. f x = k \<or> f x \<in> set ks) xs))"
    by simp
  also have "\<dots> = sum_list (map g (filter (\<lambda>x. f x = k) xs))
                   + sum_list (map g (filter (\<lambda>x. f x \<in> set ks) xs))"
    using Cons.prems by (intro sum_list_filter_disj) auto
  finally show ?case
    using Cons by simp
qed

lemma length_as_sum: "sum_list (map (\<lambda>x. Suc 0) xs) = length xs"
  by (induction xs) simp_all

lemma school_is_sum_of_students:
  assumes "students_inv s"
  shows "sc_totalDonations (getSchoolStats s schoolId)
           = sum_list (map (\<lambda>student. totalDonations (getStudentStats s (st_id student)))
               (getStudentsBySchoolId s schoolId))"
proof -
  let ?ids = "map st_id (getStudentsBySchoolId s schoolId)"
  let ?ds = "map_values (donations s)"
  have d: "distinct ?ids"
    using assms by (rule students_inv_distinct_ids)
  have "sc_totalDonations (getSchoolStats s schoolId)
          = sum_list (map (\<lambda>d. Suc 0) (filter (\<lambda>x. d_studentId x \<in> set ?ids) ?ds))"
    by (simp add: getSchoolStats_def Let_def length_as_sum)
  also have "\<dots> = sum_list (map (\<lambda>k. sum_list (map (\<lambda>d. Suc 0)
                       (filter (\<lambda>x. d_studentId x = k) ?ds))) ?ids)"
    using d by (rule sum_list_by_key)
  also have "\<dots> = sum_list (map (\<lambda>student. totalDonations (getStudentStats s (st_id student)))
               (getStudentsBySchoolId s schoolId))"
    by (simp add: getStudentStats_def getDonationsByStudentId_def Let_def comp_def
        length_as_sum)
  finally show ?thesis .
qed

lemma mset_as_sum: "sum_list (map (\<lambda>x. {#x#}) xs) = mset xs"
  by (induction xs) simp_all

lemma school_donations_are_students_donations:
  assumes "students_inv s"
  shows "mset (getDonationsBySchoolId s schoolId)
           = sum_list (map (\<lambda>student. mset (getDonationsByStudentId s (st_id student)))
               (getStudentsBySchoolId s schoolId))"
proof -
  let ?ids = "map st_id (getStudentsBySchoolId s schoolId)"
  let ?ds = "map_values (donations s)"
  have d: "distinct ?ids"
    using assms by (rule students_inv_distinct_ids)
  have "mset (getDonationsBySchoolId s schoolId)
          = sum_list (map (\<lambda>d. {#d#}) (filter (\<lambda>x. d_studentId x \<in> set ?ids) ?ds))"
    by (simp add: getDonationsBySchoolId_def Let_def mset_as_sum)
  also have "\<dots> = sum_list (map (\<lambda>k. sum_list (map (\<lambda>d. {#d#})
                       (filter (\<lambda>x. d_studentId x = k) ?ds))) ?ids)"
    using d by (rule sum_list_by_key)
  also have "\<dots> = sum_list (map (\<lambda>student. mset (getDonationsByStudentId s (st_id student)))
               (getStudentsBySchoolId s schoolId))"
    by (simp add: getDonationsByStudentId_def comp_def mset_as_sum)
  finally show ?thesis .
qed

lemma school_stats_of_donations:
  "sc_totalDonations (getSchoolStats s schoolId) = length (getDonationsBySchoolId s schoolId)"
  "sc_totalRaised (getSchoolStats s schoolId)
     = foldl (\<lambda>sum donation. sum + Number (d_amount donation)) 0
         (getDonationsBySchoolId s schoolId)"
  by (simp_all add: getSchoolStats_def getDonationsBySchoolId_def Let_def)

lemma rounding_donations:
  "getDonationsBySchoolId rounding_store (Suc 0) = map_values (donations rounding_store)"
  "getDonationsByStudentId rounding_store (Suc 0) = [snd (donations rounding_store ! 0)]"
  "getDonationsByStudentId rounding_store 2 =
     [snd (donations rounding_store ! 1), snd (donations rounding_store ! 2)]"
  "map (\<lambda>d. Number (d_amount d)) (map_values (donations rounding_store))
     = [1 / 10, 1 / 10, 11 / 10]"
  "map st_id (getStudentsBySchoolId rounding_store (Suc 0)) = [1, 2]"
  by (simp_all add: getDonationsBySchoolId_def getDonationsByStudentId_def
      getStudentsBySchoolId_def map_values_def rounding_store_def)

lemma totalRaised_double_amounts:
  "totalRaised_double ds
     = foldl (\<lambda>sum a. fl (sum + fl a)) 0 (map (\<lambda>d. Number (d_amount d)) ds)"
  by (simp add: totalRaised_double_def foldl_map)

lemma fl_tenth: "fl (1 / 10) = 3602879701896397 / 2 ^ 55"
  by (simp add: double_eval)

lemma fl_eleven_tenths: "fl (11 / 10) = 2476979795053773 / 2 ^ 51"
  by (simp add: double_eval)

lemma fl_first: "fl (3602879701896397 / 2 ^ 55) = 3602879701896397 / 2 ^ 55"
  by (simp add: double_eval)

lemma fl_tenth_tenth:
  "fl (3602879701896397 / 2 ^ 55 + 3602879701896397 / 2 ^ 55) = 3602879701896397 / 2 ^ 54"
  by (simp add: double_eval)

lemma fl_fifth_eleven_tenths:
  "fl (3602879701896397 / 2 ^ 54 + 2476979795053773 / 2 ^ 51) = 5854679515581645 / 2 ^ 52"
  by (simp add: double_eval)

lemma fl_tenth_eleven_tenths:
  "fl (3602879701896397 / 2 ^ 55 + 2476979795053773 / 2 ^ 51) = 1351079888211149 / 2 ^ 50"
  by (simp add: double_eval)

lemma fl_tenth_six_fifths:
  "fl (3602879701896397 / 2 ^ 55 + 1351079888211149 / 2 ^ 50) = 5854679515581646 / 2 ^ 52"
  by (simp add: double_eval)

lemma rounding_school_total:
  "totalRaised_double (getDonationsBySchoolId rounding_store (Suc 0))
     = 5854679515581645 / 2 ^ 52"
  unfolding totalRaised_double_amounts rounding_donations
  by (simp only: foldl.simps add_0 fl_tenth fl_eleven_tenths fl_first fl_tenth_tenth
      fl_fifth_eleven_tenths)

lemma rounding_student_totals:
  "totalRaised_double (getDonationsByStudentId rounding_store (Suc 0))
     = 3602879701896397 / 2 ^ 55"
  "totalRaised_double (getDonationsByStudentId rounding_store 2)
     = 1351079888211149 / 2 ^ 50"
proof -
  have amounts:
    "map (\<lambda>d. Number (d_amount d)) [snd (donations rounding_store ! 0)] = [1 / 10]"
    "map (\<lambda>d. Number (d_amount d))
       [snd (donations rounding_store ! 1), snd (donations rounding_store ! 2)]
     = [1 / 10, 11 / 10]"
    by (simp_all add: rounding_store_def)
  show "totalRaised_double (getDonationsByStudentId rounding_store (Suc 0))
     = 3602879701896397 / 2 ^ 55"
    unfolding totalRaised_double_amounts rounding_donations amounts
    by (simp only: foldl.simps add_0 fl_tenth fl_first)
  show "totalRaised_double (getDonationsByStudentId rounding_store 2)
     = 1351079888211149 / 2 ^ 50"
    unfolding totalRaised_double_amounts rounding_donations amounts
    by (simp only: foldl.simps add_0 fl_tenth fl_eleven_tenths fl_first
        fl_tenth_eleven_tenths)
qed

text \<open>
  C4, as the specification states it: the \<open>totalRaised\<close> of a school is the sum of the
  \<open>totalRaised\<close> of its students. The totals are sums of doubles, and a sum of doubles
  depends on its order. In the store above the school has, donation by donation,
  (0.1 + 0.1) + 1.1, which is 1.3, and its students have 0.1 and 0.1 + 1.1, which is
  1.2000000000000002, so that their sum is 1.3000000000000003: one unit in the last
  place more.
\<close>

theorem school_total_depends_on_order:
  "totalRaised_double (getDonationsBySchoolId rounding_store 1) = 5854679515581645 / 2 ^ 52
   \<and> totalRaised_double (getDonationsByStudentId rounding_store 1) = 3602879701896397 / 2 ^ 55
   \<and> totalRaised_double (getDonationsByStudentId rounding_store 2) = 1351079888211149 / 2 ^ 50
   \<and> students_total_double rounding_store 1 = 5854679515581646 / 2 ^ 52"
proof -
  have "getStudentsBySchoolId rounding_store (Suc 0)
      = [snd (students rounding_store ! 0), snd (students rounding_store ! 1)]"
    by (simp add: getStudentsBySchoolId_def map_values_def rounding_store_def)
  moreover have "st_id (snd (students rounding_store ! 0)) = Suc 0"
    "st_id (snd (students rounding_store ! 1)) = 2"
    by (simp_all add: rounding_store_def)
  ultimately have "students_total_double rounding_store (Suc 0) = 5854679515581646 / 2 ^ 52"
    unfolding students_total_double_def
    by (simp only: foldl.simps add_0 rounding_student_totals fl_first fl_tenth_six_fifths)
  then show ?thesis
    using rounding_school_total rounding_student_totals by simp
qed

text \<open>
  C4, as amended. In every store that calls on a new store lead to, and for every school
  id: the \<open>totalDonations\<close> of \<open>getSchoolStats\<close> is the sum, over the students of the
  school, of the \<open>totalDonations\<close> of \<open>getStudentStats\<close>; and the donations that
  \<open>getSchoolStats\<close> counts and sums are the donations that \<open>getStudentStats\<close> counts and
  sums for the students of the school, each of them once. So the two levels add the same
  amounts, the school in the order of the donations and the students one student after
  the other.
\<close>

theorem school_stats_consistent:
  "let s = snd (run requests constructor);
       enrolled = getStudentsBySchoolId s schoolId
   in sc_totalDonations (getSchoolStats s schoolId)
        = sum_list (map (\<lambda>student. totalDonations (getStudentStats s (st_id student))) enrolled)
      \<and> sc_totalDonations (getSchoolStats s schoolId) = length (getDonationsBySchoolId s schoolId)
      \<and> sc_totalRaised (getSchoolStats s schoolId)
        = foldl (\<lambda>sum donation. sum + Number (d_amount donation)) 0
            (getDonationsBySchoolId s schoolId)
      \<and> mset (getDonationsBySchoolId s schoolId)
        = sum_list (map (\<lambda>student. mset (getDonationsByStudentId s (st_id student))) enrolled)"
  unfolding Let_def
  using school_is_sum_of_students [OF students_inv_run [OF students_inv_constructor]]
    school_donations_are_students_donations [OF students_inv_run [OF students_inv_constructor]]
    school_stats_of_donations
  by blast

section \<open>Top performing students\<close>

lemma insert_by_insort_key:
  "insert_by (\<lambda>a b. f b - f a) x ys = insort_key (\<lambda>y. - f y) x ys"
  by (induction ys) simp_all

lemma array_sort_descending:
  "array_sort (\<lambda>a b. f b - f a) xs = sort_key (\<lambda>y. - f y) xs"
  by (induction xs) (simp_all add: array_sort_def sort_key_def insert_by_insort_key)

lemma array_sort_sorted:
  "sorted_wrt (\<lambda>a b. f b \<le> f a) (array_sort (\<lambda>a b. f b - f a) xs)"
  for f :: "'a \<Rightarrow> real"
proof -
  have "sorted (map (\<lambda>y. - f y) (sort_key (\<lambda>y. - f y) xs))"
    by (rule sorted_sort_key)
  then show ?thesis
    by (simp add: array_sort_descending sorted_map)
qed

lemma array_sort_stable:
  "filter (\<lambda>x. f x = k) (array_sort (\<lambda>a b. f b - f a) xs) = filter (\<lambda>x. f x = k) xs"
  for f :: "'a \<Rightarrow> real"
  using sort_key_stable [of "\<lambda>y. - f y" "- k" xs]
  by (simp add: array_sort_descending)

lemma array_sort_mset: "mset (array_sort (\<lambda>a b. f b - f a) xs) = mset xs"
  for f :: "'a \<Rightarrow> real"
  by (simp add: array_sort_descending)

lemma slice0_take: "0 \<le> e \<Longrightarrow> slice0 xs e = take (nat e) xs"
  by (simp add: slice0_def min_def)

lemma prefix_filter_take: "prefix (filter P (take n xs)) (filter P xs)"
proof -
  have "filter P xs = filter P (take n xs) @ filter P (drop n xs)"
    by (metis append_take_drop_id filter_append)
  then show ?thesis
    by (metis prefixI)
qed

text \<open>
  C3. For every school id and every limit, omitted (then it is 10) or given and not
  negative, as a bound on a number of entries is: \<open>getTopPerformingStudents\<close> returns
  at most \<open>limit\<close> entries, sorted non-increasing by \<open>amountRaised\<close>, and the entries
  with one and the same \<open>amountRaised\<close> stand in the order in which the students of
  the school are enumerated. Every entry is a student of the school with its progress.
\<close>

theorem top_students_sorted:
  assumes "0 \<le> (case limit of None \<Rightarrow> 10 | Some l \<Rightarrow> l)"
  shows "let r = getTopPerformingStudents s schoolId limit;
             enumerated = map (withProgress s) (getStudentsBySchoolId s schoolId)
         in int (length r) \<le> (case limit of None \<Rightarrow> 10 | Some l \<Rightarrow> l)
            \<and> sorted_wrt (\<lambda>a b. amountRaised b \<le> amountRaised a) r
            \<and> (\<forall>k. prefix (filter (\<lambda>x. amountRaised x = k) r)
                           (filter (\<lambda>x. amountRaised x = k) enumerated))
            \<and> set r \<subseteq> set enumerated"
proof -
  let ?n = "case limit of None \<Rightarrow> 10 | Some l \<Rightarrow> l"
  let ?all = "map (withProgress s) (getStudentsBySchoolId s schoolId)"
  let ?sorted = "array_sort (\<lambda>a b. amountRaised b - amountRaised a) ?all"
  have r: "getTopPerformingStudents s schoolId limit = take (nat ?n) ?sorted"
    using assms by (simp add: getTopPerformingStudents_def Let_def slice0_take)
  have len: "int (length (take (nat ?n) ?sorted)) \<le> ?n"
    using assms by simp
  have srt: "sorted_wrt (\<lambda>a b. amountRaised b \<le> amountRaised a) (take (nat ?n) ?sorted)"
    using array_sort_sorted [of amountRaised ?all] by (rule sorted_wrt_take)
  have stable: "prefix (filter (\<lambda>x. amountRaised x = k) (take (nat ?n) ?sorted))
                       (filter (\<lambda>x. amountRaised x = k) ?all)" for k
    using prefix_filter_take [of "\<lambda>x. amountRaised x = k" "nat ?n" ?sorted]
    by (simp add: array_sort_stable)
  have "set ?sorted = set ?all"
    using array_sort_mset [of amountRaised ?all] by (metis set_mset_mset)
  then have sub: "set (take (nat ?n) ?sorted) \<subseteq> set ?all"
    using set_take_subset by fastforce
  show ?thesis
    unfolding Let_def r using len srt stable sub by blast
qed

lemma example_top:
  "getTopPerformingStudents example_store (Suc 0) limit =
     slice0
       [\<lparr> st_userId = 2, st_schoolId = 1, firstName = ''A'', lastName = '''', grade = ''5'',
          personalGoal = Some 100, st_id = 1, st_createdAt = 1,
          amountRaised = 70, goalProgress = Fin 70 \<rparr>,
        \<lparr> st_userId = 3, st_schoolId = 1, firstName = ''B'', lastName = '''', grade = ''6'',
          personalGoal = Some 200, st_id = 2, st_createdAt = 2,
          amountRaised = 50, goalProgress = Fin 25 \<rparr>,
        \<lparr> st_userId = 4, st_schoolId = 1, firstName = ''C'', lastName = '''', grade = ''5'',
          personalGoal = None, st_id = 3, st_createdAt = 3,
          amountRaised = 0, goalProgress = Fin 0 \<rparr>]
       (case limit of None \<Rightarrow> 10 | Some l \<Rightarrow> l)"
  by (simp add: getTopPerformingStudents_def withProgress_def withStats_def
      getStudentStats_def getDonationsByStudentId_def getStudentsBySchoolId_def
      map_values_def array_sort_def student.defs studentWithProgress.defs js_div_def
      example_store_def quotient_70_100 quotient_50_200)

theorem top_students_sorted_witness:
  "map amountRaised (getTopPerformingStudents example_store 1 (Some 2)) = [70, 50]
   \<and> sorted_wrt (\<lambda>a b. amountRaised b \<le> amountRaised a)
        (getTopPerformingStudents example_store 1 (Some 2))
   \<and> map amountRaised (getTopPerformingStudents example_store 1 None) = [70, 50, 0]
   \<and> int (length (getTopPerformingStudents example_store 1 None)) \<le> 10"
proof -
  have a: "map amountRaised (getTopPerformingStudents example_store 1 (Some 2)) = [70, 50]"
    by (simp add: example_top slice0_def)
  have b: "map amountRaised (getTopPerformingStudents example_store 1 None) = [70, 50, 0]"
    by (simp add: example_top slice0_def)
  show ?thesis
    using top_students_sorted [of "Some 2" example_store 1]
      top_students_sorted [of None example_store 1] a b
    by (simp add: Let_def)
qed

section \<open>Goal progress\<close>











text \<open>
  Beyond the bound the quotient can overflow, and the progress is infinite then: so it
  is for \<open>2 ^ 1023\<close> raised of a goal of \<open>1 / 1024\<close>.
\<close>

lemma goal_progress_overflow:
  "Math_round (double_times (double_div (2 ^ 1023) (1 / 1024)) 100) = PInf"
  by (simp add: double_eval)

section \<open>Class rankings\<close>

text \<open>
  C6. The percentages of the class rankings are to sum to 100, up to rounding, when the
  school has raised a positive total. They do not when a grade names a property that every
  object inherits: the only student of school 1 has the grade "constructor" and a
  donation of 50; the school's total is 50, and the class rankings are empty, so there is
  no group for the grade and the percentages sum to 0.
\<close>

theorem class_rankings_inherited_grade:
  "sc_totalRaised (getSchoolStats inherited_grade_store 1) = 50
   \<and> classRankings inherited_grade_store 1 = []"
  by (simp add: getSchoolStats_def classRankings_def getStudentsBySchoolId_def map_values_def
      addStudent_def Object_prototype_names_def own_entries_def array_sort_def
      inherited_grade_store_def)

text \<open>The rankings of school 1 of the example, whose grades are "5" and "6".\<close>

lemma example_rankings:
  "classRankings example_store (Suc 0) =
     [\<lparr> cr_grade = ''5'', cr_totalRaised = 70, percentage = Fin 58 \<rparr>,
      \<lparr> cr_grade = ''6'', cr_totalRaised = 50, percentage = Fin 42 \<rparr>]"
  by (simp add: getSchoolStats_def classRankings_def getStudentsBySchoolId_def map_values_def
      addStudent_def Object_prototype_names_def own_entries_def array_sort_def
      getStudentStats_def getDonationsByStudentId_def js_div_def
      is_array_index_def index_value_def digit_value_def
      example_store_def quotient_70_120 quotient_50_120)


end
